theory Spec2Isabelle
  imports Main "HOL-Library.Monad_Syntax"
begin

section \<open>Strings: the library operations the parser calls\<close>

text \<open>
  The parser of \<^verbatim>\<open>canpy/parser/dbc_parser.py\<close> works on Python strings. A character
  is modelled as a code point below 256. \<open>isspace\<close> is Python's \<^verbatim>\<open>str.isspace\<close> on that
  range (it is also what \<^verbatim>\<open>\s\<close> matches in a \<^verbatim>\<open>str\<close> pattern), \<open>isdigit\<close> is what
  \<^verbatim>\<open>\d\<close> matches there.
\<close>

definition isspace :: "char \<Rightarrow> bool" where
  "isspace c = (of_char c \<in> set [9, 10, 11, 12, 13, 28, 29, 30, 31, 32, 133, 160 :: nat])"

definition isdigit :: "char \<Rightarrow> bool" where
  "isdigit c = (c \<in> set ''0123456789'')"

text \<open>\<^verbatim>\<open>s.strip()\<close>: leading and trailing whitespace removed.\<close>

definition strip :: "string \<Rightarrow> string" where
  "strip s = rev (dropWhile isspace (rev (dropWhile isspace s)))"

text \<open>\<^verbatim>\<open>s.startswith(p)\<close>.\<close>

definition startswith :: "string \<Rightarrow> string \<Rightarrow> bool" where
  "startswith s p = (take (length p) s = p)"

text \<open>\<^verbatim>\<open>s[-n:]\<close> for a positive \<open>n\<close>: the last \<open>n\<close> characters, all of \<open>s\<close> when it is shorter.\<close>

definition lastn :: "nat \<Rightarrow> string \<Rightarrow> string" where
  "lastn n s = drop (length s - n) s"

text \<open>
  \<^verbatim>\<open>s.replace(old, new)\<close>: every non-overlapping occurrence of \<open>old\<close>, found from the
  left, becomes \<open>new\<close>; an empty \<open>old\<close> occurs before every character and at the end.
\<close>

fun replace :: "string \<Rightarrow> string \<Rightarrow> string \<Rightarrow> string" where
  "replace old new [] = (if old = [] then new else [])"
| "replace old new (c # cs) =
     (if old = [] then new @ c # replace old new cs
      else if startswith (c # cs) old
      then new @ replace old new (drop (length old - 1) cs)
      else c # replace old new cs)"

text \<open>\<^verbatim>\<open>s.split(sep)\<close> for a one-character separator: never an empty list.\<close>

fun split :: "char \<Rightarrow> string \<Rightarrow> string list" where
  "split sep [] = [[]]"
| "split sep (c # cs) =
     (if c = sep then [] # split sep cs
      else (case split sep cs of [] \<Rightarrow> [[c]] | w # ws \<Rightarrow> (c # w) # ws))"

text \<open>\<^verbatim>\<open>re.sub('\s+', ' ', s)\<close>: every maximal run of whitespace becomes one space.\<close>

function sub_ws :: "string \<Rightarrow> string" where
  "sub_ws [] = []"
| "sub_ws (c # cs) =
     (if isspace c then CHR '' '' # sub_ws (dropWhile isspace cs) else c # sub_ws cs)"
  by pat_completeness auto
termination
  by (relation "measure length") (auto simp: less_Suc_eq_le length_dropWhile_le)

text \<open>
  \<^verbatim>\<open>int(s)\<close>. The parser applies it only to text matched by \<^verbatim>\<open>\d*\<close> or \<^verbatim>\<open>\d+\<close>: a
  string of digits is read in base ten, the empty string raises \<^verbatim>\<open>ValueError\<close> (\<open>None\<close>).
  Python's integers are unbounded, but the conversion from a string is not: the interpreter
  (CPython 3.11, with its default \<^verbatim>\<open>sys.int_info.default_max_str_digits\<close>) raises
  \<^verbatim>\<open>ValueError\<close> for a string of more than 4300 digits, leading zeros counted.
\<close>

definition max_str_digits :: nat where
  "max_str_digits = 4300"

definition digit_val :: "char \<Rightarrow> int" where
  "digit_val c = int (of_char c) - 48"

definition py_int :: "string \<Rightarrow> int option" where
  "py_int s =
     (if s \<noteq> [] \<and> list_all isdigit s \<and> length s \<le> max_str_digits
      then Some (foldl (\<lambda>a c. 10 * a + digit_val c) 0 s) else None)"

section \<open>Regular expressions: the part of Python's \<^verbatim>\<open>re\<close> the patterns use\<close>

text \<open>
  The patterns of the parser are sequences of single characters and character classes,
  greedy repetitions of one class (\<^verbatim>\<open>*\<close>, \<^verbatim>\<open>+\<close>), named groups and optional named groups.
  \<open>mtch\<close> is the backtracking matcher of \<^verbatim>\<open>re\<close> on this fragment: it matches the pattern
  items from the left against a prefix of the text, a greedy repetition tries the longest
  run first and gives characters back one at a time, an optional part is tried before it is
  skipped, and the first way that succeeds is the result. A group that took part in the match
  is recorded with its text; a skipped group is absent (\<^verbatim>\<open>None\<close> in Python).

  The pattern still to be matched is a list of items. Entering a group puts its body in
  front of the list, followed by the item \<open>Close\<close>, which carries the name of the group and
  the text that remained when the group was entered: when the matcher reaches it, the group
  has matched what was consumed since. \<open>Close\<close> is not part of a pattern as written.
  \<open>rx_weight\<close> is the measure of the termination proof.
\<close>

datatype cls = Any | Space | NonSpace | Digit | Lit char | OneOf string

fun cls_matches :: "cls \<Rightarrow> char \<Rightarrow> bool" where
  "cls_matches Any c = (c \<noteq> CHR 0x0A)"
| "cls_matches Space c = isspace c"
| "cls_matches NonSpace c = (\<not> isspace c)"
| "cls_matches Digit c = isdigit c"
| "cls_matches (Lit x) c = (c = x)"
| "cls_matches (OneOf xs) c = (c \<in> set xs)"

datatype rx =
    One cls
  | Star cls
  | Plus cls
  | Group string "rx list"
  | Optional "rx list"
  | Close string string

type_synonym caps = "(string \<times> string) list"

fun rx_weight :: "rx \<Rightarrow> nat" where
  "rx_weight (One c) = 1"
| "rx_weight (Star c) = 1"
| "rx_weight (Plus c) = 3"
| "rx_weight (Group n body) = 2 + sum_list (map rx_weight body)"
| "rx_weight (Optional body) = 1 + sum_list (map rx_weight body)"
| "rx_weight (Close n start) = 1"

function mtch :: "rx list \<Rightarrow> string \<Rightarrow> caps \<Rightarrow> caps option" where
  "mtch [] s g = Some g"
| "mtch (One c # r) [] g = None"
| "mtch (One c # r) (x # xs) g = (if cls_matches c x then mtch r xs g else None)"
| "mtch (Star c # r) [] g = mtch r [] g"
| "mtch (Star c # r) (x # xs) g =
     (if cls_matches c x
      then (case mtch (Star c # r) xs g of Some g' \<Rightarrow> Some g' | None \<Rightarrow> mtch r (x # xs) g)
      else mtch r (x # xs) g)"
| "mtch (Plus c # r) s g = mtch (One c # Star c # r) s g"
| "mtch (Group n body # r) s g = mtch (body @ Close n s # r) s g"
| "mtch (Optional body # r) s g =
     (case mtch (body @ r) s g of Some g' \<Rightarrow> Some g' | None \<Rightarrow> mtch r s g)"
| "mtch (Close n start # r) s g = mtch r s ((n, take (length start - length s) start) # g)"
  by pat_completeness auto
termination
  by (relation "measures [\<lambda>(p, s, g). length s, \<lambda>(p, s, g). sum_list (map rx_weight p)]") auto

text \<open>\<^verbatim>\<open>re.search(pattern, s)\<close>: the match at the leftmost position that has one.\<close>

fun re_search :: "rx list \<Rightarrow> string \<Rightarrow> caps option" where
  "re_search p [] = mtch p [] []"
| "re_search p (x # xs) =
     (case mtch p (x # xs) [] of Some g \<Rightarrow> Some g | None \<Rightarrow> re_search p xs)"

text \<open>\<^verbatim>\<open>reg.group(name)\<close>, \<open>None\<close> for a group that took no part in the match.\<close>

definition group :: "caps \<Rightarrow> string \<Rightarrow> string option" where
  "group g n = map_of g n"

text \<open>The literal characters of a pattern, one item each.\<close>

definition lit :: "string \<Rightarrow> rx list" where
  "lit w = map (\<lambda>c. One (Lit c)) w"

definition quote :: char where
  "quote = CHR 0x22"

section \<open>The Entity Graph\<close>

text \<open>
  The classes \<^verbatim>\<open>CANBus\<close>, \<^verbatim>\<open>CANNode\<close>, \<^verbatim>\<open>CANMessage\<close>, \<^verbatim>\<open>CANSignal\<close> and the attribute
  definitions are imported by the parser from \<^verbatim>\<open>canpy.can_bus\<close>. The parser holds
  references to these objects (the current message, the target of a description), so the
  objects live in a store: every bus the parser creates has an address, and a node, a
  message or a signal is referred to by the address of its bus and its key there.

  Python's \<^verbatim>\<open>float\<close> is not modelled: a physical value has the type \<open>'f\<close>, and the
  conversion \<^verbatim>\<open>float(s)\<close> is a parameter \<open>fl :: string \<Rightarrow> 'f option\<close> of the parser
  (\<open>None\<close> for \<^verbatim>\<open>ValueError\<close>).
\<close>

datatype error =
    MalformedRecord
  | UnknownNode
  | UnknownMessage
  | UnknownSignal
  | DuplicateEntity
  | ContextError
  | BadMode

text \<open>
  \<open>MalformedRecord\<close> stands for the exceptions of a line that does not fit its pattern or of
  a field that does not convert (\<^verbatim>\<open>AttributeError\<close> on a \<^verbatim>\<open>None\<close> match or group,
  \<^verbatim>\<open>ValueError\<close> of \<^verbatim>\<open>int\<close> and \<^verbatim>\<open>float\<close>, \<^verbatim>\<open>TypeError\<close> of a \<^verbatim>\<open>None\<close> argument),
  \<open>UnknownNode\<close> for the \<^verbatim>\<open>KeyError\<close> of \<^verbatim>\<open>self._canbus.nodes[name]\<close>, \<open>ContextError\<close> for
  \<^verbatim>\<open>RuntimeError('Signal description not in message block')\<close>, and \<open>BadMode\<close> for the
  \<^verbatim>\<open>TypeError\<close> of \<^verbatim>\<open>self._mode[1][0]\<close> when the mode holds no continuation payload.
\<close>

datatype obj_type = CANBus | CANNode | CANMessage | CANSignal

text \<open>
  Modelled from the spec: the attribute definition classes of
  \<^verbatim>\<open>canpy.can_bus.can_attribute\<close>, which is not among the sources. A definition has a name,
  the entity kind it applies to, and a domain: Float(min, max), Int(min, max), String, or
  Enum(ordered list of allowed values).
\<close>

datatype 'f attr_def =
    CANFloatAttributeDefinition string obj_type 'f 'f
  | CANIntAttributeDefinition string obj_type 'f 'f
  | CANStringAttributeDefinition string obj_type
  | CANEnumAttributeDefinition string obj_type "string list"

fun attr_name :: "'f attr_def \<Rightarrow> string" where
  "attr_name (CANFloatAttributeDefinition n t lo hi) = n"
| "attr_name (CANIntAttributeDefinition n t lo hi) = n"
| "attr_name (CANStringAttributeDefinition n t) = n"
| "attr_name (CANEnumAttributeDefinition n t vs) = n"

fun attr_obj_type :: "'f attr_def \<Rightarrow> obj_type" where
  "attr_obj_type (CANFloatAttributeDefinition n t lo hi) = t"
| "attr_obj_type (CANIntAttributeDefinition n t lo hi) = t"
| "attr_obj_type (CANStringAttributeDefinition n t) = t"
| "attr_obj_type (CANEnumAttributeDefinition n t vs) = t"

text \<open>
  Modelled from the spec: the class \<^verbatim>\<open>CANSignal\<close>, which is not among the sources. The
  fields are the keyword arguments the parser passes to the constructor, the receiving nodes
  (references: the address of a bus and a node name) and the optional description.
\<close>

record 'f can_signal =
  sig_name :: string
  start_bit :: int
  sig_length :: int
  little_endian :: bool
  signed :: bool
  factor :: 'f
  offset :: 'f
  value_min :: 'f
  value_max :: 'f
  sig_unit :: string
  is_multiplexer :: bool
  multiplexer_id :: "int option"
  receivers :: "(nat \<times> string) list"
  sig_description :: "string option"

text \<open>
  Modelled from the spec: the class \<^verbatim>\<open>CANMessage\<close>, which is not among the sources:
  numeric id, name, byte length, the sending node (set when the message is added to a node),
  optional description, and the signals it owns, by name.
\<close>

record 'f can_message =
  can_id :: int
  msg_name :: string
  msg_length :: int
  sender :: "string option"
  msg_description :: "string option"
  signals :: "(string \<times> 'f can_signal) list"

text \<open>
  Modelled from the spec: the class \<^verbatim>\<open>CANNode\<close>, which is not among the sources: a name,
  an optional description, and the messages the node sends (their ids in the bus-wide index).
\<close>

record can_node =
  node_name :: string
  node_description :: "string option"
  node_messages :: "int list"

text \<open>
  Modelled from the spec: the class \<^verbatim>\<open>CANBus\<close>, which is not among the sources: optional
  version, optional speed (unset by default), optional description, the nodes by name, the
  bus-wide index of messages by id, and the attribute definitions.
\<close>

record 'f can_bus =
  version :: "string option"
  speed :: "int option"
  description :: "string option"
  nodes :: "(string \<times> can_node) list"
  messages :: "(int \<times> 'f can_message) list"
  attribute_definitions :: "'f attr_def list"

text \<open>
  Modelled from the spec: the constructors \<^verbatim>\<open>CANBus()\<close>, \<^verbatim>\<open>CANNode(name)\<close> and
  \<^verbatim>\<open>CANMessage(can_id, name, length)\<close>, which are not among the sources: a new object
  holds what the constructor is given, and nothing else is set.
\<close>

definition new_bus :: "'f can_bus" where
  "new_bus = \<lparr>version = None, speed = None, description = None, nodes = [], messages = [],
     attribute_definitions = []\<rparr>"

definition new_node :: "string \<Rightarrow> can_node" where
  "new_node n = \<lparr>node_name = n, node_description = None, node_messages = []\<rparr>"

definition new_message :: "int \<Rightarrow> string \<Rightarrow> int \<Rightarrow> 'f can_message" where
  "new_message i n l = \<lparr>can_id = i, msg_name = n, msg_length = l, sender = None,
     msg_description = None, signals = []\<rparr>"

text \<open>An entry of a table changed in place; a key that is absent changes nothing.\<close>

definition update_entry :: "'k \<Rightarrow> ('v \<Rightarrow> 'v) \<Rightarrow> ('k \<times> 'v) list \<Rightarrow> ('k \<times> 'v) list" where
  "update_entry k f kvs = map (\<lambda>(k', v). if k' = k then (k', f v) else (k', v)) kvs"

text \<open>
  Modelled from the spec: \<^verbatim>\<open>addNode\<close> of the Entity Graph, which is not among the sources:
  inserts a node, fails with DuplicateEntity if the name exists.
\<close>

definition add_node :: "can_node \<Rightarrow> 'f can_bus \<Rightarrow> error + 'f can_bus" where
  "add_node n b =
     (if map_of (nodes b) (node_name n) \<noteq> None then Inl DuplicateEntity
      else Inr (b\<lparr>nodes := nodes b @ [(node_name n, n)]\<rparr>))"

text \<open>
  Modelled from the spec: \<^verbatim>\<open>addMessage\<close> of the Entity Graph (\<^verbatim>\<open>CANNode.add_message\<close>),
  which is not among the sources: inserts into both the node's message set and the bus-wide
  index, fails with DuplicateEntity if the id collides. The node is the one found by the
  caller under the name \<open>n\<close>.
\<close>

definition add_message :: "string \<Rightarrow> 'f can_message \<Rightarrow> 'f can_bus \<Rightarrow> error + 'f can_bus" where
  "add_message n m b =
     (if map_of (messages b) (can_id m) \<noteq> None then Inl DuplicateEntity
      else Inr (b\<lparr>nodes := update_entry n
                    (\<lambda>nd. nd\<lparr>node_messages := node_messages nd @ [can_id m]\<rparr>) (nodes b),
                 messages := messages b @ [(can_id m, m\<lparr>sender := Some n\<rparr>)]\<rparr>))"

text \<open>
  Modelled from the spec: \<^verbatim>\<open>addSignal\<close> of the Entity Graph (\<^verbatim>\<open>CANMessage.add_signal\<close>),
  which is not among the sources: fails with DuplicateEntity on a name collision within the
  message.
\<close>

definition add_signal :: "'f can_signal \<Rightarrow> 'f can_message \<Rightarrow> error + 'f can_message" where
  "add_signal sg m =
     (if map_of (signals m) (sig_name sg) \<noteq> None then Inl DuplicateEntity
      else Inr (m\<lparr>signals := signals m @ [(sig_name sg, sg)]\<rparr>))"

text \<open>
  Modelled from the spec: \<^verbatim>\<open>CANSignal.add_receiver\<close>, which is not among the sources: the
  receivers are a set of nodes.
\<close>

definition add_receiver :: "nat \<times> string \<Rightarrow> 'f can_signal \<Rightarrow> 'f can_signal" where
  "add_receiver r sg = sg\<lparr>receivers := (if r \<in> set (receivers sg) then receivers sg
                                          else receivers sg @ [r])\<rparr>"

text \<open>
  Modelled from the spec: \<^verbatim>\<open>addAttributeDefinition\<close>, which is not among the sources: fails
  with DuplicateEntity on a name collision. The parser passes \<^verbatim>\<open>None\<close> when the type
  keyword is none of the four; the record then does not fit the layout of an attribute
  definition, which is MalformedRecord.
\<close>

definition add_attribute_definition :: "'f attr_def option \<Rightarrow> 'f can_bus \<Rightarrow> error + 'f can_bus" where
  "add_attribute_definition ad b =
     (case ad of
        None \<Rightarrow> Inl MalformedRecord
      | Some d \<Rightarrow>
          if attr_name d \<in> set (map attr_name (attribute_definitions b)) then Inl DuplicateEntity
          else Inr (b\<lparr>attribute_definitions := attribute_definitions b @ [d]\<rparr>))"

text \<open>
  Modelled from the spec: the lookups \<^verbatim>\<open>messageById\<close> (\<^verbatim>\<open>get_message\<close>) and
  \<^verbatim>\<open>signalByMessageIdAndName\<close> (\<^verbatim>\<open>get_signal\<close>), which are not among the sources: they
  fail rather than return a sentinel.
\<close>

definition get_message :: "int \<Rightarrow> 'f can_bus \<Rightarrow> error + 'f can_message" where
  "get_message i b = (case map_of (messages b) i of None \<Rightarrow> Inl UnknownMessage | Some m \<Rightarrow> Inr m)"

definition get_signal :: "int \<Rightarrow> string \<Rightarrow> 'f can_bus \<Rightarrow> error + 'f can_signal" where
  "get_signal i n b =
     (case map_of (messages b) i of
        None \<Rightarrow> Inl UnknownMessage
      | Some m \<Rightarrow> (case map_of (signals m) n of None \<Rightarrow> Inl UnknownSignal | Some sg \<Rightarrow> Inr sg))"

section \<open>The parser state\<close>

text \<open>
  A \<^verbatim>\<open>DBCParser\<close> object has three mutable attributes: \<^verbatim>\<open>_mode\<close>, a pair of a tag and
  a payload (\<^verbatim>\<open>('NORMAL', None)\<close>, \<^verbatim>\<open>('MESSAGE', message)\<close> or
  \<^verbatim>\<open>('MULTILINE_DESCRIPTION', (desc_item, text))\<close>), \<^verbatim>\<open>_canbus\<close>, the bus under
  construction, and \<^verbatim>\<open>_force_parser\<close>, \<^verbatim>\<open>False\<close> or the continuation handler. The
  payloads refer to objects of the graph, so they are references into the store. Every
  \<^verbatim>\<open>CANBus()\<close> takes the next address; the buses of earlier invocations stay in the store.
\<close>

datatype target =
    BusRef nat
  | NodeRef nat string
  | MessageRef nat int
  | SignalRef nat int string

datatype mode =
    NORMAL
  | MESSAGE nat int
  | MULTILINE_DESCRIPTION target string

record 'f parser =
  mode :: mode
  canbus :: nat
  force_parser :: bool
  store :: "nat \<Rightarrow> 'f can_bus"

type_synonym 'f result = "(error \<times> 'f parser) + 'f parser"

text \<open>\<^verbatim>\<open>DBCParser.__init__\<close>.\<close>

definition init :: "'f parser" where
  "init = \<lparr>mode = NORMAL, canbus = 0, force_parser = False, store = (\<lambda>a. new_bus)\<rparr>"

text \<open>The bus \<^verbatim>\<open>self._canbus\<close> refers to, read and replaced.\<close>

definition the_bus :: "'f parser \<Rightarrow> 'f can_bus" where
  "the_bus s = store s (canbus s)"

definition set_bus :: "'f can_bus \<Rightarrow> 'f parser \<Rightarrow> 'f parser" where
  "set_bus b s = s\<lparr>store := (store s)(canbus s := b)\<rparr>"

text \<open>The assignment \<^verbatim>\<open>desc_item.description = text\<close> through a reference.\<close>

fun set_description :: "target \<Rightarrow> string \<Rightarrow> (nat \<Rightarrow> 'f can_bus) \<Rightarrow> (nat \<Rightarrow> 'f can_bus)" where
  "set_description (BusRef a) d st = st(a := (st a)\<lparr>description := Some d\<rparr>)"
| "set_description (NodeRef a n) d st =
     st(a := (st a)\<lparr>nodes := update_entry n (\<lambda>nd. nd\<lparr>node_description := Some d\<rparr>) (nodes (st a))\<rparr>)"
| "set_description (MessageRef a i) d st =
     st(a := (st a)\<lparr>messages := update_entry i (\<lambda>m. m\<lparr>msg_description := Some d\<rparr>) (messages (st a))\<rparr>)"
| "set_description (SignalRef a i n) d st =
     st(a := (st a)\<lparr>messages := update_entry i
        (\<lambda>m. m\<lparr>signals := update_entry n (\<lambda>sg. sg\<lparr>sig_description := Some d\<rparr>) (signals m)\<rparr>)
        (messages (st a))\<rparr>)"

text \<open>Python's truth value of a group: matched and not empty.\<close>

definition truthy :: "string option \<Rightarrow> bool" where
  "truthy v = (case v of None \<Rightarrow> False | Some x \<Rightarrow> x \<noteq> [])"

section \<open>The record grammars\<close>

subsection \<open>\<^verbatim>\<open>_parse_version\<close>\<close>

text \<open>\<^verbatim>\<open>VERSION\s+"(?P<version>\S+)"\<close>\<close>

definition version_pattern :: "rx list" where
  "version_pattern =
     lit ''VERSION'' @ [Plus Space, One (Lit quote), Group ''version'' [Plus NonSpace],
       One (Lit quote)]"

definition parse_version :: "'f parser \<Rightarrow> string \<Rightarrow> 'f result" where
  "parse_version s version_str =
     (case re_search version_pattern version_str of
        None \<Rightarrow> Inl (MalformedRecord, s)
      | Some reg \<Rightarrow> Inr (set_bus ((the_bus s)\<lparr>version := group reg ''version''\<rparr>) s))"

subsection \<open>\<^verbatim>\<open>_parse_nodes\<close>\<close>

text \<open>\<^verbatim>\<open>BU_\s*:\s*(?P<nodes>.+)\s*\<close>\<close>

definition nodes_pattern :: "rx list" where
  "nodes_pattern =
     lit ''BU_'' @ [Star Space, One (Lit (CHR '':'')), Star Space, Group ''nodes'' [Plus Any],
       Star Space]"

text \<open>The loop over the node names: the nodes added before a failure stay in the bus.\<close>

fun add_nodes :: "string list \<Rightarrow> 'f parser \<Rightarrow> 'f result" where
  "add_nodes [] s = Inr s"
| "add_nodes (name # ns) s =
     (case add_node (new_node name) (the_bus s) of
        Inl e \<Rightarrow> Inl (e, s)
      | Inr b \<Rightarrow> add_nodes ns (set_bus b s))"

definition parse_nodes :: "'f parser \<Rightarrow> string \<Rightarrow> 'f result" where
  "parse_nodes s nodes_str =
     (case re_search nodes_pattern nodes_str of
        None \<Rightarrow> Inl (MalformedRecord, s)
      | Some reg \<Rightarrow>
          (case group reg ''nodes'' of
             None \<Rightarrow> Inl (MalformedRecord, s)
           | Some ns \<Rightarrow> add_nodes (split (CHR '' '') (strip (sub_ws ns))) s))"

subsection \<open>\<^verbatim>\<open>_parse_message\<close>\<close>

text \<open>\<^verbatim>\<open>BO_\s+(?P<can_id>\d+)\s+(?P<name>\S+)\s*:\s*(?P<length>\d+)\s+(?P<sender>\S+)\<close>\<close>

definition message_pattern :: "rx list" where
  "message_pattern =
     lit ''BO_'' @ [Plus Space, Group ''can_id'' [Plus Digit], Plus Space,
       Group ''name'' [Plus NonSpace], Star Space, One (Lit (CHR '':'')), Star Space,
       Group ''length'' [Plus Digit], Plus Space, Group ''sender'' [Plus NonSpace]]"

text \<open>
  The message of the record (line 90), and the name of its sender (the key of line 91).
\<close>

definition message_fields :: "caps \<Rightarrow> ('f can_message \<times> string) option" where
  "message_fields reg =
     do {
       i \<leftarrow> Option.bind (group reg ''can_id'') py_int;
       n \<leftarrow> group reg ''name'';
       l \<leftarrow> Option.bind (group reg ''length'') py_int;
       sn \<leftarrow> group reg ''sender'';
       Some (new_message i (strip n) l, strip sn)
     }"

definition parse_message :: "'f parser \<Rightarrow> string \<Rightarrow> 'f result" where
  "parse_message s message_str =
     (case re_search message_pattern message_str of
        None \<Rightarrow> Inl (MalformedRecord, s)
      | Some reg \<Rightarrow>
          (case message_fields reg of
             None \<Rightarrow> Inl (MalformedRecord, s)
           | Some (message, sn) \<Rightarrow>
               (case map_of (nodes (the_bus s)) sn of
                  None \<Rightarrow> Inl (UnknownNode, s)
                | Some nd \<Rightarrow>
                    (case add_message sn message (the_bus s) of
                       Inl e \<Rightarrow> Inl (e, s)
                     | Inr b \<Rightarrow> Inr ((set_bus b s)\<lparr>mode := MESSAGE (canbus s) (can_id message)\<rparr>)))))"

subsection \<open>\<^verbatim>\<open>_parse_signal\<close>\<close>

text \<open>
  \<^verbatim>\<open>SG_\s+(?P<name>\S+)\s*(?P<is_multipexer>M)?(?P<multiplexer_id>m\d+)?\s*:\s*\<close>
  \<^verbatim>\<open>(?P<start_bit>\d+)\|(?P<length>\d+)\@(?P<endianness>[0|1])(?P<sign>[\+|\-])\s*\<close>
  \<^verbatim>\<open>\(\s*(?P<factor>\S+)\s*,\s*(?P<offset>\S+)\s*\)\s*\[\s*(?P<min_value>\S+)\s*\|\s*(?P<max_value>\S+)\s*\]\<close>
  \<^verbatim>\<open>\s*"(?P<unit>\S*)"\s+(?P<receivers>.+)\<close>

  The bar inside the two bracket expressions is a member of the class, not an alternative.
\<close>

definition signal_pattern :: "rx list" where
  "signal_pattern =
     lit ''SG_'' @ [Plus Space, Group ''name'' [Plus NonSpace], Star Space,
       Optional [Group ''is_multipexer'' [One (Lit (CHR ''M''))]],
       Optional [Group ''multiplexer_id'' [One (Lit (CHR ''m'')), Plus Digit]],
       Star Space, One (Lit (CHR '':'')), Star Space,
       Group ''start_bit'' [Plus Digit], One (Lit (CHR ''|'')),
       Group ''length'' [Plus Digit], One (Lit (CHR ''@'')),
       Group ''endianness'' [One (OneOf ''0|1'')], Group ''sign'' [One (OneOf ''+|-'')],
       Star Space,
       One (Lit (CHR ''('')), Star Space, Group ''factor'' [Plus NonSpace], Star Space,
       One (Lit (CHR '','')), Star Space, Group ''offset'' [Plus NonSpace], Star Space,
       One (Lit (CHR '')'')), Star Space,
       One (Lit (CHR ''['')), Star Space, Group ''min_value'' [Plus NonSpace], Star Space,
       One (Lit (CHR ''|'')), Star Space, Group ''max_value'' [Plus NonSpace], Star Space,
       One (Lit (CHR '']'')),
       Star Space, One (Lit quote), Group ''unit'' [Star NonSpace], One (Lit quote),
       Plus Space, Group ''receivers'' [Plus Any]]"

text \<open>
  Lines 108 to 112, computed before the mode is looked at: \<^verbatim>\<open>little_endian\<close>,
  \<^verbatim>\<open>signed\<close>, \<^verbatim>\<open>receivers\<close>, \<^verbatim>\<open>is_multiplexer\<close>, \<^verbatim>\<open>multiplexer_id\<close>.
\<close>

definition signal_flags :: "caps \<Rightarrow> (bool \<times> bool \<times> string list \<times> bool \<times> int option) option" where
  "signal_flags reg =
     do {
       e \<leftarrow> group reg ''endianness'';
       sg \<leftarrow> group reg ''sign'';
       rs \<leftarrow> group reg ''receivers'';
       mid \<leftarrow> (if truthy (group reg ''multiplexer_id'')
                then map_option Some
                       (Option.bind (group reg ''multiplexer_id'') (\<lambda>x. py_int (drop 1 (strip x))))
                else Some None);
       Some (strip e = ''1'', strip sg = ''-'',
             map strip (split (CHR '' '') (strip (sub_ws rs))),
             truthy (group reg ''is_multipexer''), mid)
     }"

text \<open>The constructor call of lines 116 to 120; \<open>None\<close> when a field does not convert.\<close>

definition new_signal ::
  "(string \<Rightarrow> 'f option) \<Rightarrow> caps \<Rightarrow> bool \<Rightarrow> bool \<Rightarrow> bool \<Rightarrow> int option \<Rightarrow> 'f can_signal option" where
  "new_signal fl reg le sgnd is_mux mux_id =
     do {
       n \<leftarrow> group reg ''name'';
       sb \<leftarrow> Option.bind (group reg ''start_bit'') py_int;
       ln \<leftarrow> Option.bind (group reg ''length'') py_int;
       fa \<leftarrow> Option.bind (group reg ''factor'') fl;
       off \<leftarrow> Option.bind (group reg ''offset'') fl;
       mn \<leftarrow> Option.bind (group reg ''min_value'') fl;
       mx \<leftarrow> Option.bind (group reg ''max_value'') fl;
       u \<leftarrow> group reg ''unit'';
       Some \<lparr>sig_name = strip n, start_bit = sb, sig_length = ln, little_endian = le,
             signed = sgnd, factor = fa, offset = off, value_min = mn, value_max = mx,
             sig_unit = strip u, is_multiplexer = is_mux, multiplexer_id = mux_id,
             receivers = [], sig_description = None\<rparr>
     }"

text \<open>
  The loop of lines 121 to 123 over the receiver names: each must be a node of the current
  bus (at the address \<open>a\<close>).
\<close>

fun add_receivers :: "string list \<Rightarrow> nat \<Rightarrow> 'f can_bus \<Rightarrow> 'f can_signal \<Rightarrow> error + 'f can_signal" where
  "add_receivers [] a b sg = Inr sg"
| "add_receivers (name # ns) a b sg =
     (case map_of (nodes b) name of
        None \<Rightarrow> Inl UnknownNode
      | Some nd \<Rightarrow> add_receivers ns a b (add_receiver (a, name) sg))"

text \<open>
  \<^verbatim>\<open>self._mode[1].add_signal(signal)\<close>: the message is reached through the reference of
  the mode. A reference is made only to a message that is in the store and no message is ever
  removed, so the first case is there for totality only.
\<close>

definition add_signal_at :: "nat \<Rightarrow> int \<Rightarrow> 'f can_signal \<Rightarrow> 'f parser \<Rightarrow> 'f result" where
  "add_signal_at a i sg s =
     (case map_of (messages (store s a)) i of
        None \<Rightarrow> Inl (UnknownMessage, s)
      | Some m \<Rightarrow>
          (case add_signal sg m of
             Inl e \<Rightarrow> Inl (e, s)
           | Inr m' \<Rightarrow>
               Inr (s\<lparr>store := (store s)(a := (store s a)
                      \<lparr>messages := update_entry i (\<lambda>m. m') (messages (store s a))\<rparr>)\<rparr>)))"

definition parse_signal :: "(string \<Rightarrow> 'f option) \<Rightarrow> 'f parser \<Rightarrow> string \<Rightarrow> 'f result" where
  "parse_signal fl s signal_str =
     (case re_search signal_pattern signal_str of
        None \<Rightarrow> Inl (MalformedRecord, s)
      | Some reg \<Rightarrow>
          (case signal_flags reg of
             None \<Rightarrow> Inl (MalformedRecord, s)
           | Some (le, sgnd, rcv, is_mux, mux_id) \<Rightarrow>
               (case mode s of
                  MESSAGE a i \<Rightarrow>
                    (case new_signal fl reg le sgnd is_mux mux_id of
                       None \<Rightarrow> Inl (MalformedRecord, s)
                     | Some signal \<Rightarrow>
                         (case add_receivers rcv (canbus s) (the_bus s) signal of
                            Inl e \<Rightarrow> Inl (e, s)
                          | Inr signal' \<Rightarrow> add_signal_at a i signal' s))
                | _ \<Rightarrow> Inl (ContextError, s))))"

subsection \<open>\<^verbatim>\<open>_parse_description\<close> and \<^verbatim>\<open>_parse_multiline_description\<close>\<close>

text \<open>
  \<^verbatim>\<open>CM_\s+(?P<node>BU_)?(?P<msg>BO_)?(?P<sig>SG_)?\s*\<close>
  \<^verbatim>\<open>(?P<can_id>\d*)?\s*(?P<name>\S*)?\s*"(?P<value>.+)\<close>
\<close>

definition description_pattern :: "rx list" where
  "description_pattern =
     lit ''CM_'' @ [Plus Space,
       Optional [Group ''node'' (lit ''BU_'')],
       Optional [Group ''msg'' (lit ''BO_'')],
       Optional [Group ''sig'' (lit ''SG_'')],
       Star Space,
       Optional [Group ''can_id'' [Star Digit]], Star Space,
       Optional [Group ''name'' [Star NonSpace]], Star Space,
       One (Lit quote), Group ''value'' [Plus Any]]"

text \<open>The terminator \<^verbatim>\<open>";\<close> of a description.\<close>

definition terminator :: string where
  "terminator = [quote, CHR '';'']"

text \<open>Lines 138 to 146: the object the description belongs to.\<close>

definition desc_item :: "'f parser \<Rightarrow> caps \<Rightarrow> error + target" where
  "desc_item s reg =
     (if truthy (group reg ''node'') then
        (case group reg ''name'' of
           None \<Rightarrow> Inl MalformedRecord
         | Some n \<Rightarrow>
             (case map_of (nodes (the_bus s)) (strip n) of
                None \<Rightarrow> Inl UnknownNode
              | Some nd \<Rightarrow> Inr (NodeRef (canbus s) (strip n))))
      else if truthy (group reg ''msg'') then
        (case Option.bind (group reg ''can_id'') py_int of
           None \<Rightarrow> Inl MalformedRecord
         | Some i \<Rightarrow>
             (case get_message i (the_bus s) of
                Inl e \<Rightarrow> Inl e
              | Inr m \<Rightarrow> Inr (MessageRef (canbus s) i)))
      else if truthy (group reg ''sig'') then
        (case Option.bind (group reg ''can_id'') py_int of
           None \<Rightarrow> Inl MalformedRecord
         | Some i \<Rightarrow>
             (case group reg ''name'' of
                None \<Rightarrow> Inl MalformedRecord
              | Some n \<Rightarrow>
                  (case get_signal i (strip n) (the_bus s) of
                     Inl e \<Rightarrow> Inl e
                   | Inr sg \<Rightarrow> Inr (SignalRef (canbus s) i (strip n)))))
      else Inr (BusRef (canbus s)))"

definition parse_description :: "'f parser \<Rightarrow> string \<Rightarrow> 'f result" where
  "parse_description s desc_str =
     (case re_search description_pattern desc_str of
        None \<Rightarrow> Inl (MalformedRecord, s)
      | Some reg \<Rightarrow>
          (case desc_item s reg of
             Inl e \<Rightarrow> Inl (e, s)
           | Inr item \<Rightarrow>
               (case group reg ''value'' of
                  None \<Rightarrow> Inl (MalformedRecord, s)
                | Some v \<Rightarrow>
                    if lastn 2 (strip v) = terminator
                    then Inr (s\<lparr>store := set_description item (replace terminator [] v) (store s),
                                mode := NORMAL\<rparr>)
                    else Inr (s\<lparr>force_parser := True,
                                mode := MULTILINE_DESCRIPTION item (v @ [CHR 0x0A])\<rparr>))))"

definition parse_multiline_description :: "'f parser \<Rightarrow> string \<Rightarrow> 'f result" where
  "parse_multiline_description s line =
     (case mode s of
        MULTILINE_DESCRIPTION item text \<Rightarrow>
          if lastn 2 (strip line) = terminator
          then Inr (s\<lparr>store := set_description item (text @ replace terminator [] line) (store s),
                      force_parser := False, mode := NORMAL\<rparr>)
          else Inr (s\<lparr>mode := MULTILINE_DESCRIPTION item (text @ line)\<rparr>)
      | _ \<Rightarrow> Inl (BadMode, s))"

subsection \<open>\<^verbatim>\<open>_parse_bus_configuration\<close>\<close>

text \<open>\<^verbatim>\<open>BS_\s*:\s*(?P<speed>\d+)?\s*\<close>\<close>

definition bus_configuration_pattern :: "rx list" where
  "bus_configuration_pattern =
     lit ''BS_'' @ [Star Space, One (Lit (CHR '':'')), Star Space,
       Optional [Group ''speed'' [Plus Digit]], Star Space]"

definition parse_bus_configuration :: "'f parser \<Rightarrow> string \<Rightarrow> 'f result" where
  "parse_bus_configuration s bus_config_str =
     (case re_search bus_configuration_pattern bus_config_str of
        None \<Rightarrow> Inl (MalformedRecord, s)
      | Some reg \<Rightarrow>
          if truthy (group reg ''speed'')
          then (case Option.bind (group reg ''speed'') py_int of
                  None \<Rightarrow> Inl (MalformedRecord, s)
                | Some v \<Rightarrow> Inr (set_bus ((the_bus s)\<lparr>speed := Some v\<rparr>) s))
          else Inr s)"

subsection \<open>\<^verbatim>\<open>_parse_attribute_definition\<close>\<close>

text \<open>
  \<^verbatim>\<open>BA_DEF_\s+(?P<obj_type>...)?\s*"(?P<attr_name>\S+)"\s+\<close>
  \<^verbatim>\<open>(?P<attr_type>\S+)\s*(?P<attr_config>.+)?\s*;\<close>
\<close>

definition attribute_definition_pattern :: "rx list" where
  "attribute_definition_pattern =
     lit ''BA_DEF_'' @ [Plus Space,
       Optional [Group ''obj_type'' [One Any, One Any, One Any]], Star Space,
       One (Lit quote), Group ''attr_name'' [Plus NonSpace], One (Lit quote), Plus Space,
       Group ''attr_type'' [Plus NonSpace], Star Space,
       Optional [Group ''attr_config'' [Plus Any]], Star Space, One (Lit (CHR '';''))]"

text \<open>\<^verbatim>\<open>\s*(?P<min>\S+)\s*(?P<max>\S+)\<close>, the pattern of the bounds.\<close>

definition bounds_pattern :: "rx list" where
  "bounds_pattern =
     [Star Space, Group ''min'' [Plus NonSpace], Star Space, Group ''max'' [Plus NonSpace]]"

text \<open>\<^verbatim>\<open>reg.groups()\<close> of the attribute definition pattern: its four groups in order.\<close>

definition groups :: "caps \<Rightarrow> string option list" where
  "groups reg = map (group reg) [''obj_type'', ''attr_name'', ''attr_type'', ''attr_config'']"

text \<open>Lines 176 to 182.\<close>

definition attr_target :: "caps \<Rightarrow> obj_type" where
  "attr_target reg =
     (if Some ''BU_'' \<in> set (groups reg) then CANNode
      else if Some ''BO_'' \<in> set (groups reg) then CANMessage
      else if Some ''SG_'' \<in> set (groups reg) then CANSignal
      else CANBus)"

text \<open>The two bounds of a FLOAT or INT definition, both converted with \<^verbatim>\<open>float\<close>.\<close>

definition attr_bounds :: "(string \<Rightarrow> 'f option) \<Rightarrow> caps \<Rightarrow> ('f \<times> 'f) option" where
  "attr_bounds fl reg =
     do {
       cfg \<leftarrow> group reg ''attr_config'';
       reg_cfg \<leftarrow> re_search bounds_pattern cfg;
       lo \<leftarrow> Option.bind (group reg_cfg ''min'') fl;
       hi \<leftarrow> Option.bind (group reg_cfg ''max'') fl;
       Some (lo, hi)
     }"

text \<open>
  Lines 184 to 198: \<open>Inl\<close> for an exception, \<open>Inr None\<close> when the type keyword is none of
  the four and \<^verbatim>\<open>ad\<close> stays \<^verbatim>\<open>None\<close>.
\<close>

definition attr_build :: "(string \<Rightarrow> 'f option) \<Rightarrow> caps \<Rightarrow> error + 'f attr_def option" where
  "attr_build fl reg =
     (case group reg ''attr_name'' of
        None \<Rightarrow> Inl MalformedRecord
      | Some name \<Rightarrow>
          if group reg ''attr_type'' = Some ''FLOAT'' then
            (case attr_bounds fl reg of
               None \<Rightarrow> Inl MalformedRecord
             | Some (lo, hi) \<Rightarrow>
                 Inr (Some (CANFloatAttributeDefinition name (attr_target reg) lo hi)))
          else if group reg ''attr_type'' = Some ''INT'' then
            (case attr_bounds fl reg of
               None \<Rightarrow> Inl MalformedRecord
             | Some (lo, hi) \<Rightarrow>
                 Inr (Some (CANIntAttributeDefinition name (attr_target reg) lo hi)))
          else if group reg ''attr_type'' = Some ''STRING'' then
            Inr (Some (CANStringAttributeDefinition name (attr_target reg)))
          else if group reg ''attr_type'' = Some ''ENUM'' then
            (case group reg ''attr_config'' of
               None \<Rightarrow> Inl MalformedRecord
             | Some cfg \<Rightarrow>
                 Inr (Some (CANEnumAttributeDefinition name (attr_target reg)
                      (map (\<lambda>val. strip (replace [quote] [] val)) (split (CHR '','') cfg)))))
          else Inr None)"

definition parse_attribute_definition ::
  "(string \<Rightarrow> 'f option) \<Rightarrow> 'f parser \<Rightarrow> string \<Rightarrow> 'f result" where
  "parse_attribute_definition fl s attribute_definition_str =
     (case re_search attribute_definition_pattern attribute_definition_str of
        None \<Rightarrow> Inl (MalformedRecord, s)
      | Some reg \<Rightarrow>
          (case attr_build fl reg of
             Inl e \<Rightarrow> Inl (e, s)
           | Inr ad \<Rightarrow>
               (case add_attribute_definition ad (the_bus s) of
                  Inl e \<Rightarrow> Inl (e, s)
                | Inr b \<Rightarrow> Inr (set_bus b s))))"

section \<open>The line dispatcher and the parser facade\<close>

text \<open>
  \<^verbatim>\<open>self._keywords\<close>, in the order of the dictionary.
\<close>

definition keyword_table :: "(string \<Rightarrow> 'f option) \<Rightarrow> (string \<times> ('f parser \<Rightarrow> string \<Rightarrow> 'f result)) list" where
  "keyword_table fl =
     [(''VERSION'', parse_version),
      (''BU_'', parse_nodes),
      (''BO_'', parse_message),
      (''SG_'', parse_signal fl),
      (''CM_'', parse_description),
      (''BS_'', parse_bus_configuration),
      (''BA_DEF_'', parse_attribute_definition fl)]"

text \<open>
  The loop of \<^verbatim>\<open>_parse_line\<close> over the keywords: every keyword the line starts with has
  its function called, in order; an exception ends the loop.
\<close>

fun dispatch ::
  "(string \<times> ('f parser \<Rightarrow> string \<Rightarrow> 'f result)) list \<Rightarrow> 'f parser \<Rightarrow> string \<Rightarrow> 'f result" where
  "dispatch [] s line = Inr s"
| "dispatch ((key, parse_function) # ks) s line =
     (if startswith line key
      then (case parse_function s line of
              Inl e \<Rightarrow> Inl e
            | Inr s' \<Rightarrow> dispatch ks s' line)
      else dispatch ks s line)"

definition parse_line :: "(string \<Rightarrow> 'f option) \<Rightarrow> 'f parser \<Rightarrow> string \<Rightarrow> 'f result" where
  "parse_line fl s line =
     (if force_parser s then parse_multiline_description s line
      else dispatch (keyword_table fl) s line)"

text \<open>The loop of \<^verbatim>\<open>parse_file\<close> over the lines of the file.\<close>

fun parse_lines :: "(string \<Rightarrow> 'f option) \<Rightarrow> 'f parser \<Rightarrow> string list \<Rightarrow> 'f result" where
  "parse_lines fl s [] = Inr s"
| "parse_lines fl s (line # ls) =
     (case parse_line fl s (strip line) of
        Inl e \<Rightarrow> Inl e
      | Inr s' \<Rightarrow> parse_lines fl s' ls)"

text \<open>
  \<^verbatim>\<open>parse_file\<close>: the file is the list of its lines. A new bus is created and becomes the
  current one; the mode and the continuation handler are left as they are. The value
  returned is the current bus of the final state.
\<close>

definition parse_file :: "(string \<Rightarrow> 'f option) \<Rightarrow> 'f parser \<Rightarrow> string list \<Rightarrow> 'f result" where
  "parse_file fl s file =
     parse_lines fl (s\<lparr>canbus := Suc (canbus s),
                        store := (store s)(Suc (canbus s) := new_bus)\<rparr>) file"

text \<open>
  One conversion to run the examples with. It is not Python's \<^verbatim>\<open>float\<close>: it converts
  the non-empty strings of the digits 0 to 9 only, to the integer they denote, and fails on
  every other string. Every theorem below that has a parameter \<open>fl\<close> holds for any
  conversion.
\<close>

definition float_digits :: "string \<Rightarrow> int option" where
  "float_digits s =
     (if s \<noteq> [] \<and> list_all isdigit s
      then Some (foldl (\<lambda>a c. 10 * a + digit_val c) 0 s) else None)"

text \<open>
  What a caller sees of a result: the state the parser object is left in (also after an
  exception), and the value of the call, the exception or the bus returned.
\<close>

definition final :: "'f result \<Rightarrow> 'f parser" where
  "final r = (case r of Inl (e, s) \<Rightarrow> s | Inr s \<Rightarrow> s)"

definition returned :: "'f result \<Rightarrow> error + 'f can_bus" where
  "returned r = (case r of Inl (e, s) \<Rightarrow> Inl e | Inr s \<Rightarrow> Inr (the_bus s))"

text \<open>
  The target kind of an attribute definition as the specification states it, determined by
  the marker alone: \<^verbatim>\<open>BU_\<close> is Node, \<^verbatim>\<open>BO_\<close> is Message, \<^verbatim>\<open>SG_\<close> is Signal, and
  Bus otherwise.
\<close>

definition marker_target :: "string option \<Rightarrow> obj_type" where
  "marker_target marker =
     (if marker = Some ''BU_'' then CANNode
      else if marker = Some ''BO_'' then CANMessage
      else if marker = Some ''SG_'' then CANSignal
      else CANBus)"

section \<open>Notions for the proofs about the matcher\<close>

text \<open>The groups that take part in every match of an item: those outside an optional part.\<close>

fun binds :: "rx \<Rightarrow> string list" where
  "binds (Group n body) = n # concat (map binds body)"
| "binds (Close n start) = [n]"
| "binds _ = []"

text \<open>
  An item without groups, and the texts a sequence of such items matches as a whole
  (\<open>fits\<close>, without the order of preference of the matcher).
\<close>

fun simple :: "rx \<Rightarrow> bool" where
  "simple (One c) = True"
| "simple (Star c) = True"
| "simple (Plus c) = True"
| "simple _ = False"

function fits :: "rx list \<Rightarrow> string \<Rightarrow> bool" where
  "fits [] v = (v = [])"
| "fits (One c # r) [] = False"
| "fits (One c # r) (x # xs) = (cls_matches c x \<and> fits r xs)"
| "fits (Star c # r) [] = fits r []"
| "fits (Star c # r) (x # xs) = (fits r (x # xs) \<or> (cls_matches c x \<and> fits (Star c # r) xs))"
| "fits (Plus c # r) v = fits (One c # Star c # r) v"
| "fits (Group n body # r) v = False"
| "fits (Optional body # r) v = False"
| "fits (Close n start # r) v = False"
  by pat_completeness auto
termination
  by (relation "measure (\<lambda>(p, s). length s + sum_list (map rx_weight p))") auto

text \<open>
  The groups of a pattern with their bodies, and the patterns written in the source: their
  groups hold items without groups, also under an optional part.
\<close>

fun groups_of :: "rx \<Rightarrow> (string \<times> rx list) list" where
  "groups_of (Group n body) = [(n, body)]"
| "groups_of (Optional body) = concat (map groups_of body)"
| "groups_of _ = []"

fun wf_item :: "rx \<Rightarrow> bool" where
  "wf_item (Group n body) = list_all simple body"
| "wf_item (Optional body) = list_all wf_item body"
| "wf_item (Close n start) = False"
| "wf_item _ = True"

section \<open>Properties of the matcher\<close>

lemma mtch_Star_cases:
  assumes "mtch (Star c # r) (x # xs) g = Some g'"
  shows "(cls_matches c x \<and> mtch (Star c # r) xs g = Some g')
       \<or> (cls_matches c x \<and> mtch (Star c # r) xs g = None \<and> mtch r (x # xs) g = Some g')
       \<or> (\<not> cls_matches c x \<and> mtch r (x # xs) g = Some g')"
  using assms by (simp split: if_splits option.splits)

lemma mtch_Optional_cases:
  assumes "mtch (Optional body # r) s g = Some g'"
  shows "mtch (body @ r) s g = Some g'
       \<or> (mtch (body @ r) s g = None \<and> mtch r s g = Some g')"
  using assms by (simp split: option.splits)

lemma mtch_binds:
  "mtch p s g = Some g' \<Longrightarrow> set (concat (map binds p)) \<union> fst ` set g \<subseteq> fst ` set g'"
proof (induction p s g rule: mtch.induct)
  case (3 c r x xs g)
  then show ?case by (simp split: if_splits)
next
  case (5 c r x xs g)
  from mtch_Star_cases [OF 5(4)] 5(1,2,3) show ?case by auto
next
  case (8 body r s g)
  from mtch_Optional_cases [OF 8(3)] 8(1,2) show ?case by auto
qed auto

lemma fits_Star_skip: "fits r v \<Longrightarrow> fits (Star c # r) v"
  by (cases v) auto

lemma mtch_split:
  "list_all simple body \<Longrightarrow> mtch (body @ q) s g = Some g' \<Longrightarrow>
     \<exists>pre suf. s = pre @ suf \<and> fits body pre \<and> mtch q suf g = Some g'"
proof (induction body s arbitrary: rule: fits.induct)
  case (1 v)
  then show ?case by auto
next
  case (2 c r)
  then show ?case by auto
next
  case (3 c r x xs)
  from 3(2,3) have a: "cls_matches c x" and "list_all simple r" and "mtch (r @ q) xs g = Some g'"
    by (simp_all split: if_splits)
  with 3(1) obtain pre suf where "xs = pre @ suf" "fits r pre" "mtch q suf g = Some g'"
    by blast
  with a have "x # xs = (x # pre) @ suf \<and> fits (One c # r) (x # pre) \<and> mtch q suf g = Some g'"
    by simp
  then show ?case by blast
next
  case (4 c r)
  from 4(2,3) have "list_all simple r" and "mtch (r @ q) [] g = Some g'"
    by simp_all
  with 4(1) obtain pre suf where "[] = pre @ suf" "fits r pre" "mtch q suf g = Some g'"
    by blast
  then show ?case using fits_Star_skip by blast
next
  case (5 c r x xs)
  show ?case
  proof (cases "cls_matches c x \<and> mtch (Star c # r @ q) xs g = Some g'")
    case True
    with 5 obtain pre suf where "xs = pre @ suf" "fits (Star c # r) pre" "mtch q suf g = Some g'"
      by auto
    with True have "x # xs = (x # pre) @ suf \<and> fits (Star c # r) (x # pre) \<and> mtch q suf g = Some g'"
      by simp
    then show ?thesis by blast
  next
    case False
    with mtch_Star_cases [of c "r @ q" x xs g g'] 5(4) have "mtch (r @ q) (x # xs) g = Some g'"
      by auto
    with 5 obtain pre suf where "x # xs = pre @ suf" "fits r pre" "mtch q suf g = Some g'"
      by auto
    then show ?thesis using fits_Star_skip by blast
  qed
next
  case (6 c r v)
  then show ?case by simp
qed auto


lemma mtch_fits:
  "list_all wf_item p \<Longrightarrow> mtch p s g = Some g' \<Longrightarrow> (n, v) \<in> set g' \<Longrightarrow>
     (n, v) \<in> set g \<or> (\<exists>body. (n, body) \<in> set (concat (map groups_of p)) \<and> fits body v)"
proof (induction "length s + sum_list (map rx_weight p)" arbitrary: p s g rule: less_induct)
  case less
  note IH = less(1) and wf = less(2) and m = less(3) and nv = less(4)
  show ?case
  proof (cases p)
    case Nil
    with m nv show ?thesis by simp
  next
    case (Cons item r)
    with wf have wfr: "list_all wf_item r" by simp
    show ?thesis
    proof (cases item)
      case (One c)
      with Cons m obtain x xs where s: "s = x # xs" and mr: "mtch r xs g = Some g'"
        by (cases s) (auto split: if_splits)
      from IH [OF _ wfr mr nv] s Cons One show ?thesis by simp
    next
      case (Star c)
      show ?thesis
      proof (cases s)
        case Nil
        with Cons Star m have mr: "mtch r [] g = Some g'" by simp
        from IH [OF _ wfr mr nv] Nil Cons Star show ?thesis by simp
      next
        case (Cons x xs)
        note s = this
        from m \<open>p = item # r\<close> Star s
        have "mtch (Star c # r) (x # xs) g = Some g'" by simp
        from mtch_Star_cases [OF this]
        consider "mtch (Star c # r) xs g = Some g'" | "mtch r (x # xs) g = Some g'"
          by blast
        then show ?thesis
        proof cases
          case 1
          have "list_all wf_item (Star c # r)" using wfr by simp
          from IH [OF _ this 1 nv] s \<open>p = item # r\<close> Star show ?thesis by simp
        next
          case 2
          from IH [OF _ wfr 2 nv] s \<open>p = item # r\<close> Star show ?thesis by simp
        qed
      qed
    next
      case (Plus c)
      with Cons m have mr: "mtch (One c # Star c # r) s g = Some g'" by simp
      have "list_all wf_item (One c # Star c # r)" using wfr by simp
      from IH [OF _ this mr nv] Cons Plus show ?thesis by simp
    next
      case (Group n' body)
      with Cons wf have sb: "list_all simple body" by simp
      from Cons Group m have "mtch (body @ Close n' s # r) s g = Some g'" by simp
      from mtch_split [OF sb this] obtain pre suf
        where s: "s = pre @ suf" and f: "fits body pre"
          and mc: "mtch (Close n' s # r) suf g = Some g'"
        by blast
      from mc s have mr: "mtch r suf ((n', pre) # g) = Some g'" by simp
      have "length suf + sum_list (map rx_weight r) < length s + sum_list (map rx_weight p)"
        using s Cons Group by simp
      from IH [OF this wfr mr nv] f Cons Group show ?thesis by auto
    next
      case (Optional body)
      with Cons wf have wfb: "list_all wf_item (body @ r)" by simp
      from Cons Optional m have "mtch (Optional body # r) s g = Some g'" by simp
      from mtch_Optional_cases [OF this]
      consider "mtch (body @ r) s g = Some g'" | "mtch r s g = Some g'"
        by blast
      then show ?thesis
      proof cases
        case 1
        from IH [OF _ wfb 1 nv] Cons Optional show ?thesis by auto
      next
        case 2
        from IH [OF _ wfr 2 nv] Cons Optional show ?thesis by auto
      qed
    next
      case (Close n' start)
      with Cons wf show ?thesis by simp
    qed
  qed
qed

lemma re_search_mtch: "re_search p s = Some g \<Longrightarrow> \<exists>s'. mtch p s' [] = Some g"
  by (induction p s rule: re_search.induct) (auto split: option.splits)

lemma fits_Star: "fits [Star c] v = list_all (cls_matches c) v"
  by (induction v) auto

text \<open>A greedy repetition takes the whole run when the rest of the pattern then matches.\<close>

lemma mtch_Star_run:
  "list_all (cls_matches c) ds \<Longrightarrow> \<not> cls_matches c x \<Longrightarrow> mtch r (x # xs) g \<noteq> None \<Longrightarrow>
     mtch (Star c # r) (ds @ x # xs) g = mtch r (x # xs) g"
  by (induction ds) auto

section \<open>The dispatcher\<close>

lemma dispatch_no_key:
  "\<forall>key \<in> fst ` set ks. \<not> startswith line key \<Longrightarrow> dispatch ks s line = Inr s"
  by (induction ks s line rule: dispatch.induct) auto

text \<open>
  C9. A line that starts with none of the keywords, read while no continuation is active,
  raises no error and leaves the whole parser state, the graph, the mode and the message
  context, as it was.
\<close>

theorem unknown_line_ignored:
  assumes "\<not> force_parser s"
    and "list_all (\<lambda>key. \<not> startswith line key) (map fst (keyword_table fl))"
  shows "parse_line fl s line = Inr s"
  using assms by (simp add: parse_line_def dispatch_no_key list_all_iff)

theorem unknown_line_ignored_witness:
  "\<not> force_parser (init :: int parser)
   \<and> list_all (\<lambda>key. \<not> startswith ''NS_ :'' key) (map fst (keyword_table float_digits))
   \<and> parse_line float_digits (init :: int parser) ''NS_ :'' = Inr init"
proof -
  have a: "\<not> force_parser (init :: int parser)"
    by (simp add: init_def)
  have b: "list_all (\<lambda>key. \<not> startswith ''NS_ :'' key) (map fst (keyword_table float_digits))"
    by (simp add: keyword_table_def startswith_def)
  show ?thesis
    using a b unknown_line_ignored [OF a b] by simp
qed

section \<open>What the groups of a match hold\<close>

lemma strip_id: "s \<noteq> [] \<Longrightarrow> \<not> isspace (hd s) \<Longrightarrow> \<not> isspace (last s) \<Longrightarrow> strip s = s"
proof -
  assume a: "s \<noteq> []" "\<not> isspace (hd s)" "\<not> isspace (last s)"
  then have "dropWhile isspace s = s"
    by (simp add: dropWhile_eq_self_iff)
  moreover from a have "dropWhile isspace (rev s) = rev s"
    by (simp add: dropWhile_eq_self_iff hd_rev)
  ultimately show ?thesis
    by (simp add: strip_def)
qed

lemma isdigit_not_space: "isdigit c \<Longrightarrow> \<not> isspace c"
  by (auto simp: isdigit_def isspace_def)

lemma py_int_digits:
  "v \<noteq> [] \<Longrightarrow> list_all isdigit v \<Longrightarrow> length v \<le> max_str_digits \<Longrightarrow> py_int v \<noteq> None"
  by (simp add: py_int_def)

lemma py_int_long: "max_str_digits < length v \<Longrightarrow> py_int v = None"
  by (simp add: py_int_def)

lemma fits_One_Star: "fits [One c, Star c] v = (v \<noteq> [] \<and> list_all (cls_matches c) v)"
  by (cases v) (auto simp: fits_Star)

lemma search_group_fits:
  assumes "re_search p s = Some reg" and "list_all wf_item p" and "group reg n = Some v"
  shows "\<exists>body. (n, body) \<in> set (concat (map groups_of p)) \<and> fits body v"
proof -
  from assms(1) obtain s' where "mtch p s' [] = Some reg"
    using re_search_mtch by blast
  moreover from assms(3) have "(n, v) \<in> set reg"
    by (simp add: group_def map_of_SomeD)
  ultimately show ?thesis
    using mtch_fits [OF assms(2)] by fastforce
qed

lemma search_group_bound:
  assumes "re_search p s = Some reg" and "n \<in> set (concat (map binds p))"
  shows "group reg n \<noteq> None"
proof -
  from assms(1) obtain s' where "mtch p s' [] = Some reg"
    using re_search_mtch by blast
  from mtch_binds [OF this] assms(2) have "n \<in> fst ` set reg"
    by blast
  then show ?thesis
    by (simp add: group_def map_of_eq_None_iff)
qed

subsection \<open>The fields of a Message record\<close>

lemma message_pattern_wf: "list_all wf_item message_pattern"
  by (simp add: message_pattern_def lit_def)

lemma message_pattern_binds:
  "concat (map binds message_pattern) = [''can_id'', ''name'', ''length'', ''sender'']"
  by (simp add: message_pattern_def lit_def)

lemma message_pattern_groups:
  "concat (map groups_of message_pattern) =
     [(''can_id'', [Plus Digit]), (''name'', [Plus NonSpace]), (''length'', [Plus Digit]),
      (''sender'', [Plus NonSpace])]"
  by (simp add: message_pattern_def lit_def)

lemma message_digits:
  assumes "re_search message_pattern line = Some reg" and "group reg k = Some v"
    and "k = ''can_id'' \<or> k = ''length''"
  shows "v \<noteq> [] \<and> list_all isdigit v"
  using search_group_fits [OF assms(1) message_pattern_wf assms(2)] assms(3)
  by (auto simp: message_pattern_groups fits_One_Star list_all_iff)

lemma message_groups_bound:
  assumes "re_search message_pattern line = Some reg"
  shows "\<exists>c n l sn. group reg ''can_id'' = Some c \<and> group reg ''name'' = Some n
       \<and> group reg ''length'' = Some l \<and> group reg ''sender'' = Some sn"
proof -
  have "group reg ''can_id'' \<noteq> None" "group reg ''name'' \<noteq> None"
    "group reg ''length'' \<noteq> None" "group reg ''sender'' \<noteq> None"
    using search_group_bound [OF assms] by (simp_all add: message_pattern_binds)
  then show ?thesis by blast
qed

lemma message_fields_cases:
  assumes "re_search message_pattern line = Some reg"
    and "group reg ''can_id'' = Some c" and "group reg ''length'' = Some l"
    and "group reg ''sender'' = Some sn"
  shows "if length c \<le> max_str_digits \<and> length l \<le> max_str_digits
         then \<exists>m. (message_fields reg :: ('f can_message \<times> string) option) = Some (m, strip sn)
         else (message_fields reg :: ('f can_message \<times> string) option) = None"
proof -
  from message_groups_bound [OF assms(1)] obtain n where n: "group reg ''name'' = Some n"
    by blast
  from message_digits [OF assms(1,2)] have c: "c \<noteq> []" "list_all isdigit c"
    by simp_all
  from message_digits [OF assms(1,3)] have l: "l \<noteq> []" "list_all isdigit l"
    by simp_all
  show ?thesis
  proof (cases "length c \<le> max_str_digits \<and> length l \<le> max_str_digits")
    case True
    with c l have "py_int c \<noteq> None" "py_int l \<noteq> None"
      by (simp_all add: py_int_digits)
    with True assms(2-4) n show ?thesis
      by (auto simp: message_fields_def)
  next
    case False
    then have "py_int c = None \<or> py_int l = None"
      by (auto simp: py_int_def)
    with False assms(2-4) n show ?thesis
      by (auto simp: message_fields_def split: Option.bind_splits)
  qed
qed

subsection \<open>The fields of a Signal record\<close>

lemma signal_pattern_wf: "list_all wf_item signal_pattern"
  by (simp add: signal_pattern_def lit_def)

lemma signal_pattern_binds:
  "concat (map binds signal_pattern) =
     [''name'', ''start_bit'', ''length'', ''endianness'', ''sign'', ''factor'', ''offset'',
      ''min_value'', ''max_value'', ''unit'', ''receivers'']"
  by (simp add: signal_pattern_def lit_def)

lemma signal_pattern_groups:
  "concat (map groups_of signal_pattern) =
     [(''name'', [Plus NonSpace]), (''is_multipexer'', [One (Lit (CHR ''M''))]),
      (''multiplexer_id'', [One (Lit (CHR ''m'')), Plus Digit]),
      (''start_bit'', [Plus Digit]), (''length'', [Plus Digit]),
      (''endianness'', [One (OneOf ''0|1'')]), (''sign'', [One (OneOf ''+|-'')]),
      (''factor'', [Plus NonSpace]), (''offset'', [Plus NonSpace]),
      (''min_value'', [Plus NonSpace]), (''max_value'', [Plus NonSpace]),
      (''unit'', [Star NonSpace]), (''receivers'', [Plus Any])]"
  by (simp add: signal_pattern_def lit_def)

lemma signal_multiplexer_id:
  assumes "re_search signal_pattern line = Some reg" and "group reg ''multiplexer_id'' = Some v"
  shows "\<exists>ds. v = CHR ''m'' # ds \<and> ds \<noteq> [] \<and> list_all isdigit ds"
  using search_group_fits [OF assms(1) signal_pattern_wf assms(2)]
  by (cases v) (auto simp: signal_pattern_groups fits_One_Star list_all_iff)

lemma signal_is_multiplexer:
  assumes "re_search signal_pattern line = Some reg" and "group reg ''is_multipexer'' = Some v"
  shows "v = ''M''"
  using search_group_fits [OF assms(1) signal_pattern_wf assms(2)]
  by (cases v) (auto simp: signal_pattern_groups)

lemma strip_m_digits:
  assumes "ds \<noteq> []" and "list_all isdigit ds"
  shows "strip (CHR ''m'' # ds) = CHR ''m'' # ds"
proof -
  from assms have "isdigit (last ds)"
    by (simp add: list_all_iff)
  then have "\<not> isspace (last (CHR ''m'' # ds))"
    using assms(1) by (simp add: isdigit_not_space)
  moreover have "\<not> isspace (CHR ''m'')"
    by (simp add: isspace_def)
  ultimately show ?thesis
    by (intro strip_id) simp_all
qed

lemma signal_flags_cases:
  assumes "re_search signal_pattern line = Some reg"
  shows "(signal_flags reg = None) =
     (\<exists>v. group reg ''multiplexer_id'' = Some v \<and> max_str_digits < length (drop 1 v))"
proof -
  have "group reg ''endianness'' \<noteq> None" "group reg ''sign'' \<noteq> None"
    "group reg ''receivers'' \<noteq> None"
    using search_group_bound [OF assms] by (simp_all add: signal_pattern_binds)
  then obtain e sg rs where g: "group reg ''endianness'' = Some e" "group reg ''sign'' = Some sg"
    "group reg ''receivers'' = Some rs"
    by blast
  show ?thesis
  proof (cases "group reg ''multiplexer_id''")
    case None
    with g show ?thesis
      by (simp add: signal_flags_def truthy_def)
  next
    case (Some v)
    from signal_multiplexer_id [OF assms Some] obtain ds
      where v: "v = CHR ''m'' # ds" and ds: "ds \<noteq> []" "list_all isdigit ds"
      by blast
    from ds have "(py_int ds = None) = (max_str_digits < length ds)"
      by (auto simp: py_int_def)
    with g Some v ds show ?thesis
      by (cases "py_int ds") (simp_all add: signal_flags_def truthy_def strip_m_digits)
  qed
qed

section \<open>One keyword, one handler\<close>

lemma startswith_append: "startswith s p = (\<exists>rest. s = p @ rest)"
  by (auto simp: startswith_def) (metis append_take_drop_id)

lemma startswith_simps [simp]:
  "startswith s [] = True"
  "startswith [] (c # cs) = False"
  "startswith (x # xs) (c # cs) = (x = c \<and> startswith xs cs)"
  by (auto simp: startswith_def)

lemma result_case_id: "(case r of Inl e \<Rightarrow> Inl e | Inr s' \<Rightarrow> Inr s') = r"
  by (cases r) auto

lemma dispatch_SG:
  assumes "startswith line ''SG_''"
  shows "dispatch (keyword_table fl) s line = parse_signal fl s line"
proof -
  from assms obtain rest where "line = ''SG_'' @ rest"
    unfolding startswith_append by blast
  then show ?thesis
    by (simp add: keyword_table_def result_case_id cong: sum.case_cong)
qed

lemma dispatch_BO:
  assumes "startswith line ''BO_''"
  shows "dispatch (keyword_table fl) s line = parse_message s line"
proof -
  from assms obtain rest where "line = ''BO_'' @ rest"
    unfolding startswith_append by blast
  then show ?thesis
    by (simp add: keyword_table_def result_case_id cong: sum.case_cong)
qed

section \<open>Records out of context\<close>

lemma parse_signal_no_message:
  assumes "\<not> force_parser s" and "mode s = NORMAL"
    and "startswith line ''SG_''" and "re_search signal_pattern line = Some reg"
  shows "parse_line fl s line =
     Inl (if \<exists>v. group reg ''multiplexer_id'' = Some v \<and> max_str_digits < length (drop 1 v)
          then MalformedRecord else ContextError, s)"
proof (cases "signal_flags reg")
  case None
  with signal_flags_cases [OF assms(4)] assms show ?thesis
    by (simp add: parse_line_def dispatch_SG parse_signal_def)
next
  case (Some fs)
  with signal_flags_cases [OF assms(4)]
  have "\<not> (\<exists>v. group reg ''multiplexer_id'' = Some v \<and> max_str_digits < length (drop 1 v))"
    by simp
  with Some assms show ?thesis
    by (simp add: parse_line_def dispatch_SG parse_signal_def split: prod.splits)
qed

lemma parse_message_no_sender:
  assumes "\<not> force_parser s" and "startswith line ''BO_''"
    and "re_search message_pattern line = Some reg"
    and "group reg ''sender'' = Some sn"
    and "map_of (nodes (the_bus s)) (strip sn) = None"
    and "group reg ''can_id'' = Some c" and "group reg ''length'' = Some l"
  shows "parse_line fl s line =
     Inl (if length c \<le> max_str_digits \<and> length l \<le> max_str_digits
          then UnknownNode else MalformedRecord, s)"
proof (cases "length c \<le> max_str_digits \<and> length l \<le> max_str_digits")
  case True
  with message_fields_cases [OF assms(3,6,7,4)]
  obtain m :: "'a can_message" where "message_fields reg = Some (m, strip sn)"
    by auto
  with True assms show ?thesis
    by (simp add: parse_line_def dispatch_BO parse_message_def)
next
  case False
  with message_fields_cases [OF assms(3,6,7,4)]
  have "(message_fields reg :: ('a can_message \<times> string) option) = None"
    by auto
  with False assms show ?thesis
    by (simp add: parse_line_def dispatch_BO parse_message_def)
qed

text \<open>
  Two records with a field of 4301 digits, which \<^verbatim>\<open>int\<close> does not convert: the groups
  of the match, for any run of digits.
\<close>

lemma long_id_match:
  assumes "isdigit d" and "list_all (cls_matches Digit) ds"
  shows \<open>re_search signal_pattern (''SG_ S m'' @ d # ds @ '' : 0|8@1+ (1,0) [0|1] "" N'')
    = Some [(''receivers'', ''N''), (''unit'', []), (''max_value'', ''1''),
        (''min_value'', ''0''), (''offset'', ''0''), (''factor'', ''1''), (''sign'', ''+''),
        (''endianness'', ''1''), (''length'', ''8''), (''start_bit'', ''0''),
        (''multiplexer_id'', CHR ''m'' # d # ds), (''name'', ''S'')]\<close>
  using assms
  by (simp add: signal_pattern_def lit_def quote_def mtch_Star_run isdigit_def isspace_def)

lemma long_length_match:
  assumes "list_all (cls_matches Digit) ds"
  shows \<open>re_search message_pattern (''BO_ 1 M: '' @ CHR ''1'' # ds @ '' X'')
    = Some [(''sender'', ''X''), (''length'', CHR ''1'' # ds), (''name'', ''M''),
        (''can_id'', ''1'')]\<close>
  using assms
  by (simp add: message_pattern_def lit_def mtch_Star_run isdigit_def isspace_def)

lemma replicate_4301: "replicate 4301 c = c # replicate 4300 c"
proof -
  have "(4301 :: nat) = Suc 4300" by simp
  then show ?thesis by (simp only: replicate_Suc)
qed

lemma digits_replicate: "list_all (cls_matches Digit) (replicate n (CHR ''1''))"
  by (simp add: list_all_iff isdigit_def)

text \<open>
  C1, as amended. A line that starts with \<^verbatim>\<open>SG_\<close> and fits the pattern of a Signal record,
  read while no continuation is active and the mode is \<^verbatim>\<open>NORMAL\<close> (no message is open),
  fails, and the parser is left in the state it had before the line: the graph receives no
  signal. The error is ContextError, unless the record carries a multiplexer group id of
  more than 4300 digits: line 112 converts the id before line 114 looks at the mode, and
  the error is then the \<^verbatim>\<open>ValueError\<close> of \<^verbatim>\<open>int\<close>.
\<close>

theorem signal_outside_message:
  assumes "\<not> force_parser s" and "mode s = NORMAL"
    and "startswith line ''SG_''" and "re_search signal_pattern line = Some reg"
  shows "parse_line fl s line =
     Inl (if \<exists>v. group reg ''multiplexer_id'' = Some v \<and> max_str_digits < length (drop 1 v)
          then MalformedRecord else ContextError, s)"
  using assms by (rule parse_signal_no_message)

theorem signal_outside_message_witness:
  \<open>\<not> force_parser (init :: int parser) \<and> mode (init :: int parser) = NORMAL
   \<and> startswith ''SG_ RPM : 0|16@1+ (25,0) [0|16000] "rpm" ECU2'' ''SG_''
   \<and> re_search signal_pattern ''SG_ RPM : 0|16@1+ (25,0) [0|16000] "rpm" ECU2'' = Some
        [(''receivers'', ''ECU2''), (''unit'', ''rpm''), (''max_value'', ''16000''),
         (''min_value'', ''0''), (''offset'', ''0''), (''factor'', ''25''),
         (''sign'', ''+''), (''endianness'', ''1''), (''length'', ''16''),
         (''start_bit'', ''0''), (''name'', ''RPM'')]
   \<and> parse_line float_digits (init :: int parser)
         ''SG_ RPM : 0|16@1+ (25,0) [0|16000] "rpm" ECU2'' = Inl (ContextError, init)
   \<and> startswith ''SG_ B m3 : 0|8@0+ (1,0) [0|1] "" N'' ''SG_''
   \<and> re_search signal_pattern ''SG_ B m3 : 0|8@0+ (1,0) [0|1] "" N'' = Some
        [(''receivers'', ''N''), (''unit'', []), (''max_value'', ''1''), (''min_value'', ''0''),
         (''offset'', ''0''), (''factor'', ''1''), (''sign'', ''+''), (''endianness'', ''0''),
         (''length'', ''8''), (''start_bit'', ''0''), (''multiplexer_id'', ''m3''),
         (''name'', ''B'')]
   \<and> parse_line float_digits (init :: int parser)
         ''SG_ B m3 : 0|8@0+ (1,0) [0|1] "" N'' = Inl (ContextError, init)\<close>
proof -
  let ?l1 = \<open>''SG_ RPM : 0|16@1+ (25,0) [0|16000] "rpm" ECU2''\<close>
  let ?r1 = "[(''receivers'', ''ECU2''), (''unit'', ''rpm''), (''max_value'', ''16000''),
         (''min_value'', ''0''), (''offset'', ''0''), (''factor'', ''25''),
         (''sign'', ''+''), (''endianness'', ''1''), (''length'', ''16''),
         (''start_bit'', ''0''), (''name'', ''RPM'')]"
  let ?l2 = \<open>''SG_ B m3 : 0|8@0+ (1,0) [0|1] "" N''\<close>
  let ?r2 = "[(''receivers'', ''N''), (''unit'', []), (''max_value'', ''1''), (''min_value'', ''0''),
         (''offset'', ''0''), (''factor'', ''1''), (''sign'', ''+''), (''endianness'', ''0''),
         (''length'', ''8''), (''start_bit'', ''0''), (''multiplexer_id'', ''m3''),
         (''name'', ''B'')]"
  have a: "\<not> force_parser (init :: int parser)" by (simp add: init_def)
  have b: "mode (init :: int parser) = NORMAL" by (simp add: init_def)
  have c1: "startswith ?l1 ''SG_''" by simp
  have d1: "re_search signal_pattern ?l1 = Some ?r1" by code_simp
  have c2: "startswith ?l2 ''SG_''" by simp
  have d2: "re_search signal_pattern ?l2 = Some ?r2" by code_simp
  have e1: "parse_line float_digits (init :: int parser) ?l1 = Inl (ContextError, init)"
    unfolding signal_outside_message [OF a b c1 d1]
    by (simp add: group_def)
  have e2: "parse_line float_digits (init :: int parser) ?l2 = Inl (ContextError, init)"
    unfolding signal_outside_message [OF a b c2 d2]
    by (simp add: group_def max_str_digits_def)
  show ?thesis
    by (intro conjI a b c1 d1 e1 c2 d2 e2)
qed

theorem signal_long_id_counterexample:
  \<open>parse_line float_digits (init :: int parser)
     (''SG_ S m'' @ replicate 4301 (CHR ''1'') @ '' : 0|8@1+ (1,0) [0|1] "" N'')
   = Inl (MalformedRecord, init)\<close>
proof -
  let ?ds = "replicate 4300 (CHR ''1'')"
  let ?l = \<open>''SG_ S m'' @ CHR ''1'' # ?ds @ '' : 0|8@1+ (1,0) [0|1] "" N''\<close>
  have d: "isdigit (CHR ''1'')" by (simp add: isdigit_def)
  note m = long_id_match [OF d digits_replicate [of 4300]]
  have a: "\<not> force_parser (init :: int parser)" "mode (init :: int parser) = NORMAL"
    by (simp_all add: init_def)
  have b: "startswith ?l ''SG_''" by simp
  have "parse_line float_digits (init :: int parser) ?l = Inl (MalformedRecord, init)"
    unfolding parse_signal_no_message [OF a b m]
    by (simp add: group_def max_str_digits_def)
  then show ?thesis
    by (simp only: replicate_4301 append_Cons)
qed

text \<open>
  C6, as amended. A Message record whose sender is not a node of the graph fails, and the
  parser is left in the state it had before the line: the failed insertion leaves the graph
  unchanged, so it holds no message that it did not hold before. The error is UnknownNode,
  unless the id or the length of the record has more than 4300 digits: line 90 converts
  both before line 91 looks the sender up, and the error is then the \<^verbatim>\<open>ValueError\<close> of
  \<^verbatim>\<open>int\<close>.
\<close>

theorem message_unknown_sender:
  assumes "\<not> force_parser s" and "startswith line ''BO_''"
    and "re_search message_pattern line = Some reg"
    and "group reg ''sender'' = Some sn"
    and "map_of (nodes (the_bus s)) (strip sn) = None"
    and "group reg ''can_id'' = Some c" and "group reg ''length'' = Some l"
  shows "parse_line fl s line =
     Inl (if length c \<le> max_str_digits \<and> length l \<le> max_str_digits
          then UnknownNode else MalformedRecord, s)"
  using assms by (rule parse_message_no_sender)

theorem message_unknown_sender_witness:
  \<open>\<not> force_parser (set_bus (new_bus\<lparr>nodes := [(''ECU2'', new_node ''ECU2'')]\<rparr>) (init :: int parser))
   \<and> startswith ''BO_ 100 EngineData: 8 ECU1'' ''BO_''
   \<and> re_search message_pattern ''BO_ 100 EngineData: 8 ECU1'' = Some
        [(''sender'', ''ECU1''), (''length'', ''8''), (''name'', ''EngineData''),
         (''can_id'', ''100'')]
   \<and> map_of (nodes (the_bus (set_bus (new_bus\<lparr>nodes := [(''ECU2'', new_node ''ECU2'')]\<rparr>)
          (init :: int parser)))) (strip ''ECU1'') = None
   \<and> parse_line float_digits
         (set_bus (new_bus\<lparr>nodes := [(''ECU2'', new_node ''ECU2'')]\<rparr>) (init :: int parser))
         ''BO_ 100 EngineData: 8 ECU1''
       = Inl (UnknownNode, set_bus (new_bus\<lparr>nodes := [(''ECU2'', new_node ''ECU2'')]\<rparr>) init)\<close>
proof -
  let ?s = "set_bus (new_bus\<lparr>nodes := [(''ECU2'', new_node ''ECU2'')]\<rparr>) (init :: int parser)"
  let ?l = "''BO_ 100 EngineData: 8 ECU1''"
  let ?reg = "[(''sender'', ''ECU1''), (''length'', ''8''), (''name'', ''EngineData''),
         (''can_id'', ''100'')]"
  have a: "\<not> force_parser ?s" by (simp add: init_def set_bus_def)
  have b: "startswith ?l ''BO_''" by simp
  have c: "re_search message_pattern ?l = Some ?reg"
    by code_simp
  have d: "group ?reg ''sender'' = Some ''ECU1''" "group ?reg ''can_id'' = Some ''100''"
    "group ?reg ''length'' = Some ''8''"
    by code_simp+
  have e: "map_of (nodes (the_bus ?s)) (strip ''ECU1'') = None" by code_simp
  have f: "parse_line float_digits ?s ?l = Inl (UnknownNode, ?s)"
    unfolding message_unknown_sender [OF a b c d(1) e d(2,3)]
    by (simp add: max_str_digits_def)
  show ?thesis
    by (intro conjI a b c e f)
qed

theorem message_long_length_counterexample:
  \<open>map_of (nodes (the_bus (init :: int parser))) ''X'' = None
   \<and> parse_line float_digits (init :: int parser)
        (''BO_ 1 M: '' @ replicate 4301 (CHR ''1'') @ '' X'')
     = Inl (MalformedRecord, init)\<close>
proof -
  let ?ds = "replicate 4300 (CHR ''1'')"
  let ?l = \<open>''BO_ 1 M: '' @ CHR ''1'' # ?ds @ '' X''\<close>
  let ?r = "[(''sender'', ''X''), (''length'', CHR ''1'' # ?ds), (''name'', ''M''),
     (''can_id'', ''1'')]"
  have d: "isdigit (CHR ''1'')" by (simp add: isdigit_def)
  note m = long_length_match [OF digits_replicate [of 4300]]
  have a: "\<not> force_parser (init :: int parser)" by (simp add: init_def)
  have b: "startswith ?l ''BO_''" by simp
  have g: "group ?r ''sender'' = Some ''X''" "group ?r ''can_id'' = Some ''1''"
    "group ?r ''length'' = Some (CHR ''1'' # ?ds)"
    by (simp_all add: group_def)
  have n: "map_of (nodes (the_bus (init :: int parser))) ''X'' = None"
    by (simp add: init_def the_bus_def new_bus_def)
  have n': "map_of (nodes (the_bus (init :: int parser))) (strip ''X'') = None"
    by (simp add: init_def the_bus_def new_bus_def)
  have "parse_line float_digits (init :: int parser) ?l = Inl (MalformedRecord, init)"
    unfolding parse_message_no_sender [OF a b m g(1) n' g(2,3)]
    by (simp add: max_str_digits_def)
  then have "parse_line float_digits (init :: int parser)
      (''BO_ 1 M: '' @ replicate 4301 (CHR ''1'') @ '' X'') = Inl (MalformedRecord, init)"
    by (simp only: replicate_4301 append_Cons)
  with n show ?thesis by (rule conjI)
qed

section \<open>The message context\<close>

lemma final_simps [simp]: "final (Inl (e, s)) = s" "final (Inr s) = s"
  by (simp_all add: final_def)

lemma mode_set_bus [simp]: "mode (set_bus b s) = mode s"
  by (simp add: set_bus_def)














section \<open>The signal a Signal record adds\<close>

lemma map_of_update_entry: "map_of (update_entry k f kvs) k = map_option f (map_of kvs k)"
  by (induction kvs) (auto simp: update_entry_def)

lemma add_receivers_fields:
  "add_receivers ns a b sg = Inr sg' \<Longrightarrow> \<exists>rs. sg' = sg\<lparr>receivers := rs\<rparr>"
proof (induction ns a b sg rule: add_receivers.induct)
  case (1 a b sg)
  then have "sg' = sg\<lparr>receivers := receivers sg\<rparr>" by simp
  then show ?case by blast
next
  case (2 name ns a b sg)
  then obtain rs where "sg' = (add_receiver (a, name) sg)\<lparr>receivers := rs\<rparr>"
    by (auto split: option.splits)
  then have "sg' = sg\<lparr>receivers := rs\<rparr>"
    by (simp add: add_receiver_def)
  then show ?case by blast
qed

lemma add_signal_at_stores:
  assumes "add_signal_at a i sg s = Inr s'"
  shows "\<exists>m. map_of (messages (store s' a)) i = Some m \<and> map_of (signals m) (sig_name sg) = Some sg"
proof -
  from assms obtain m m' where m: "map_of (messages (store s a)) i = Some m"
    and a: "add_signal sg m = Inr m'"
    and s': "s' = s\<lparr>store := (store s)(a := (store s a)
                      \<lparr>messages := update_entry i (\<lambda>m. m') (messages (store s a))\<rparr>)\<rparr>"
    by (auto simp: add_signal_at_def split: option.splits sum.splits)
  from a have "map_of (signals m') (sig_name sg) = Some sg"
    by (auto simp: add_signal_def map_add_def split: if_splits)
  moreover from m s' have "map_of (messages (store s' a)) i = Some m'"
    by (simp add: map_of_update_entry)
  ultimately show ?thesis by blast
qed

lemma parse_signal_stores:
  assumes "parse_signal fl s line = Inr s'" and "re_search signal_pattern line = Some reg"
    and "mode s = MESSAGE a i"
  shows "\<exists>n e sd m sg. group reg ''name'' = Some n \<and> group reg ''endianness'' = Some e
       \<and> group reg ''sign'' = Some sd \<and> signal_flags reg \<noteq> None
       \<and> map_of (messages (store s' a)) i = Some m \<and> map_of (signals m) (strip n) = Some sg
       \<and> little_endian sg = (strip e = ''1'') \<and> signed sg = (strip sd = ''-'')
       \<and> is_multiplexer sg = truthy (group reg ''is_multipexer'')
       \<and> multiplexer_id sg =
           (if truthy (group reg ''multiplexer_id'')
            then Option.bind (group reg ''multiplexer_id'') (\<lambda>x. py_int (drop 1 (strip x)))
            else None)"
proof -
  from assms obtain le sd' rcv is_mux mux_id signal signal'
    where fl: "signal_flags reg = Some (le, sd', rcv, is_mux, mux_id)"
      and ns: "new_signal fl reg le sd' is_mux mux_id = Some signal"
      and ar: "add_receivers rcv (canbus s) (the_bus s) signal = Inr signal'"
      and at: "add_signal_at a i signal' s = Inr s'"
    by (auto simp: parse_signal_def split: option.splits sum.splits)
  from fl obtain e sd where g: "group reg ''endianness'' = Some e" "group reg ''sign'' = Some sd"
    and v: "le = (strip e = ''1'')" "sd' = (strip sd = ''-'')"
       "is_mux = truthy (group reg ''is_multipexer'')"
       "mux_id = (if truthy (group reg ''multiplexer_id'')
            then Option.bind (group reg ''multiplexer_id'') (\<lambda>x. py_int (drop 1 (strip x)))
            else None)"
    by (auto simp: signal_flags_def split: Option.bind_splits if_splits)
  from ns obtain n where n: "group reg ''name'' = Some n"
    and sg: "sig_name signal = strip n" "little_endian signal = le" "signed signal = sd'"
      "is_multiplexer signal = is_mux" "multiplexer_id signal = mux_id"
    by (auto simp: new_signal_def split: Option.bind_splits)
  from add_receivers_fields [OF ar] obtain rs where "signal' = signal\<lparr>receivers := rs\<rparr>"
    by blast
  with sg have sg': "sig_name signal' = strip n" "little_endian signal' = le"
    "signed signal' = sd'" "is_multiplexer signal' = is_mux" "multiplexer_id signal' = mux_id"
    by simp_all
  from add_signal_at_stores [OF at] sg'(1) obtain m
    where "map_of (messages (store s' a)) i = Some m" "map_of (signals m) (strip n) = Some signal'"
    by auto
  with g n v sg' fl show ?thesis by auto
qed

lemma accepted_id_converts:
  assumes "re_search signal_pattern line = Some reg" and "signal_flags reg \<noteq> None"
    and "group reg ''multiplexer_id'' = Some (CHR ''m'' # ds)"
  shows "py_int ds \<noteq> None" and "ds \<noteq> []" and "list_all isdigit ds"
proof -
  from signal_multiplexer_id [OF assms(1,3)] show ds: "ds \<noteq> []" "list_all isdigit ds"
    by simp_all
  from signal_flags_cases [OF assms(1)] assms(2,3) have "length ds \<le> max_str_digits"
    by (simp add: not_less)
  with ds show "py_int ds \<noteq> None"
    by (simp add: py_int_digits)
qed


lemma strip_single: "strip ''1'' = ''1''" "strip ''0'' = ''0''" "strip ''-'' = ''-''" "strip ''+'' = ''+''"
  by (simp_all add: strip_def isspace_def)

text \<open>
  C5. The signal that an accepted Signal record adds to the open message has its fields
  decoded as follows: endianness code \<^verbatim>\<open>1\<close> gives little-endian true and \<^verbatim>\<open>0\<close> false;
  sign code \<^verbatim>\<open>-\<close> gives signed true and \<^verbatim>\<open>+\<close> false; the marker \<^verbatim>\<open>M\<close> alone gives the
  multiplexer flag and no group id; \<^verbatim>\<open>m<digits>\<close> alone gives the group id of the digits
  and no multiplexer flag.
\<close>

theorem signal_field_decoding:
  assumes "parse_signal fl s line = Inr s'" and "re_search signal_pattern line = Some reg"
    and "mode s = MESSAGE a i"
  shows "\<exists>n m sg. group reg ''name'' = Some n
       \<and> map_of (messages (store s' a)) i = Some m \<and> map_of (signals m) (strip n) = Some sg
       \<and> (group reg ''endianness'' = Some ''1'' \<longrightarrow> little_endian sg)
       \<and> (group reg ''endianness'' = Some ''0'' \<longrightarrow> \<not> little_endian sg)
       \<and> (group reg ''sign'' = Some ''-'' \<longrightarrow> signed sg)
       \<and> (group reg ''sign'' = Some ''+'' \<longrightarrow> \<not> signed sg)
       \<and> (group reg ''is_multipexer'' = Some ''M'' \<and> group reg ''multiplexer_id'' = None
            \<longrightarrow> is_multiplexer sg \<and> multiplexer_id sg = None)
       \<and> (\<forall>ds. group reg ''is_multipexer'' = None
                 \<and> group reg ''multiplexer_id'' = Some (CHR ''m'' # ds)
            \<longrightarrow> \<not> is_multiplexer sg \<and> multiplexer_id sg = py_int ds \<and> py_int ds \<noteq> None)"
proof -
  from parse_signal_stores [OF assms] obtain n e sd m sg
    where n: "group reg ''name'' = Some n" and e: "group reg ''endianness'' = Some e"
      and sd: "group reg ''sign'' = Some sd" and ok: "signal_flags reg \<noteq> None"
      and m: "map_of (messages (store s' a)) i = Some m"
      and sg: "map_of (signals m) (strip n) = Some sg"
      and le: "little_endian sg = (strip e = ''1'')" and sn: "signed sg = (strip sd = ''-'')"
      and mx: "is_multiplexer sg = truthy (group reg ''is_multipexer'')"
      and mi: "multiplexer_id sg =
           (if truthy (group reg ''multiplexer_id'')
            then Option.bind (group reg ''multiplexer_id'') (\<lambda>x. py_int (drop 1 (strip x)))
            else None)"
    by blast
  have 1: "group reg ''endianness'' = Some ''1'' \<longrightarrow> little_endian sg"
    and 2: "group reg ''endianness'' = Some ''0'' \<longrightarrow> \<not> little_endian sg"
    using e le by (auto simp: strip_single)
  have 3: "group reg ''sign'' = Some ''-'' \<longrightarrow> signed sg"
    and 4: "group reg ''sign'' = Some ''+'' \<longrightarrow> \<not> signed sg"
    using sd sn by (auto simp: strip_single)
  have 5: "group reg ''is_multipexer'' = Some ''M'' \<and> group reg ''multiplexer_id'' = None
            \<longrightarrow> is_multiplexer sg \<and> multiplexer_id sg = None"
    using mx mi by (simp add: truthy_def)
  have 6: "\<not> is_multiplexer sg \<and> multiplexer_id sg = py_int ds \<and> py_int ds \<noteq> None"
    if h: "group reg ''is_multipexer'' = None" "group reg ''multiplexer_id'' = Some (CHR ''m'' # ds)"
    for ds
  proof -
    note d = accepted_id_converts [OF assms(2) ok h(2)]
    with h mx mi show ?thesis
      by (simp add: truthy_def strip_m_digits)
  qed
  from n m sg 1 2 3 4 5 6 show ?thesis by blast
qed

text \<open>
  C4, as amended. The signal that an accepted Signal record adds to the open message has
  the multiplexer flag set exactly when the record carries the marker \<^verbatim>\<open>M\<close>, and a group
  id exactly when it carries \<^verbatim>\<open>m<digits>\<close>: the two are both set exactly when the record
  carries both, and such a record is accepted.
\<close>

theorem multiplexer_roles:
  assumes "parse_signal fl s line = Inr s'" and "re_search signal_pattern line = Some reg"
    and "mode s = MESSAGE a i"
  shows "\<exists>n m sg. group reg ''name'' = Some n
       \<and> map_of (messages (store s' a)) i = Some m \<and> map_of (signals m) (strip n) = Some sg
       \<and> is_multiplexer sg = (group reg ''is_multipexer'' \<noteq> None)
       \<and> (multiplexer_id sg \<noteq> None) = (group reg ''multiplexer_id'' \<noteq> None)"
proof -
  from parse_signal_stores [OF assms] obtain n m sg
    where n: "group reg ''name'' = Some n" and ok: "signal_flags reg \<noteq> None"
      and m: "map_of (messages (store s' a)) i = Some m"
      and sg: "map_of (signals m) (strip n) = Some sg"
      and mx: "is_multiplexer sg = truthy (group reg ''is_multipexer'')"
      and mi: "multiplexer_id sg =
           (if truthy (group reg ''multiplexer_id'')
            then Option.bind (group reg ''multiplexer_id'') (\<lambda>x. py_int (drop 1 (strip x)))
            else None)"
    by blast
  have "truthy (group reg ''is_multipexer'') = (group reg ''is_multipexer'' \<noteq> None)"
    using signal_is_multiplexer [OF assms(2)] by (auto simp: truthy_def split: option.splits)
  with mx have 1: "is_multiplexer sg = (group reg ''is_multipexer'' \<noteq> None)"
    by simp
  have 2: "(multiplexer_id sg \<noteq> None) = (group reg ''multiplexer_id'' \<noteq> None)"
  proof (cases "group reg ''multiplexer_id''")
    case None
    with mi show ?thesis by (simp add: truthy_def)
  next
    case (Some v)
    from signal_multiplexer_id [OF assms(2) Some] obtain ds
      where v: "v = CHR ''m'' # ds"
      by blast
    note d = accepted_id_converts [OF assms(2) ok Some [unfolded v]]
    with Some mi v show ?thesis
      by (auto simp: truthy_def strip_m_digits)
  qed
  from n m sg 1 2 show ?thesis by blast
qed

theorem multiplexer_both_counterexample:
  \<open>returned (parse_file float_digits (init :: int parser)
      [''BU_: N'', ''BO_ 1 M: 8 N'', ''SG_ S Mm1 : 0|8@1+ (1,0) [0|1] "" N''])
   = Inr \<lparr>version = None, speed = None, description = None,
       nodes = [(''N'', \<lparr>node_name = ''N'', node_description = None, node_messages = [1]\<rparr>)],
       messages = [(1, \<lparr>can_id = 1, msg_name = ''M'', msg_length = 8, sender = Some ''N'',
         msg_description = None,
         signals = [(''S'', \<lparr>sig_name = ''S'', start_bit = 0, sig_length = 8,
           little_endian = True, signed = False, factor = 1, offset = 0, value_min = 0,
           value_max = 1, sig_unit = [], is_multiplexer = True, multiplexer_id = Some 1,
           receivers = [(1, ''N'')], sig_description = None\<rparr>)]\<rparr>)],
       attribute_definitions = []\<rparr>\<close>
  by code_simp

lemma not_isl_final: "\<not> isl r \<Longrightarrow> r = Inr (final r)"
  by (cases r) (simp_all add: final_def)


theorem signal_field_decoding_witness:
  \<open>mode (final (parse_lines float_digits (init :: int parser) [''BU_: N'', ''BO_ 1 M: 8 N'']))
     = MESSAGE 0 1
   \<and> re_search signal_pattern ''SG_ A M : 0|8@1- (1,0) [0|1] "" N'' = Some
        [(''receivers'', ''N''), (''unit'', []), (''max_value'', ''1''), (''min_value'', ''0''),
         (''offset'', ''0''), (''factor'', ''1''), (''sign'', ''-''), (''endianness'', ''1''),
         (''length'', ''8''), (''start_bit'', ''0''), (''is_multipexer'', ''M''),
         (''name'', ''A'')]
   \<and> (\<exists>m sg. map_of (messages (store (final (parse_signal float_digits
          (final (parse_lines float_digits (init :: int parser) [''BU_: N'', ''BO_ 1 M: 8 N'']))
          ''SG_ A M : 0|8@1- (1,0) [0|1] "" N'')) 0)) 1 = Some m
        \<and> map_of (signals m) ''A'' = Some sg
        \<and> little_endian sg \<and> signed sg \<and> is_multiplexer sg \<and> multiplexer_id sg = None)
   \<and> re_search signal_pattern ''SG_ B m3 : 0|8@0+ (1,0) [0|1] "" N'' = Some
        [(''receivers'', ''N''), (''unit'', []), (''max_value'', ''1''), (''min_value'', ''0''),
         (''offset'', ''0''), (''factor'', ''1''), (''sign'', ''+''), (''endianness'', ''0''),
         (''length'', ''8''), (''start_bit'', ''0''), (''multiplexer_id'', ''m3''),
         (''name'', ''B'')]
   \<and> (\<exists>m sg. map_of (messages (store (final (parse_signal float_digits
          (final (parse_lines float_digits (init :: int parser) [''BU_: N'', ''BO_ 1 M: 8 N'']))
          ''SG_ B m3 : 0|8@0+ (1,0) [0|1] "" N'')) 0)) 1 = Some m
        \<and> map_of (signals m) ''B'' = Some sg
        \<and> \<not> little_endian sg \<and> \<not> signed sg \<and> \<not> is_multiplexer sg
        \<and> multiplexer_id sg = Some 3)\<close>
proof -
  let ?s = "final (parse_lines float_digits (init :: int parser) [''BU_: N'', ''BO_ 1 M: 8 N''])"
  let ?l1 = \<open>''SG_ A M : 0|8@1- (1,0) [0|1] "" N''\<close>
  let ?r1 = "[(''receivers'', ''N''), (''unit'', []), (''max_value'', ''1''), (''min_value'', ''0''),
         (''offset'', ''0''), (''factor'', ''1''), (''sign'', ''-''), (''endianness'', ''1''),
         (''length'', ''8''), (''start_bit'', ''0''), (''is_multipexer'', ''M''),
         (''name'', ''A'')]"
  let ?l2 = \<open>''SG_ B m3 : 0|8@0+ (1,0) [0|1] "" N''\<close>
  let ?r2 = "[(''receivers'', ''N''), (''unit'', []), (''max_value'', ''1''), (''min_value'', ''0''),
         (''offset'', ''0''), (''factor'', ''1''), (''sign'', ''+''), (''endianness'', ''0''),
         (''length'', ''8''), (''start_bit'', ''0''), (''multiplexer_id'', ''m3''),
         (''name'', ''B'')]"
  have md: "mode ?s = MESSAGE 0 1" by code_simp
  have a1: "parse_signal float_digits ?s ?l1 = Inr (final (parse_signal float_digits ?s ?l1))"
    by (rule not_isl_final) code_simp
  have b1: "re_search signal_pattern ?l1 = Some ?r1" by code_simp
  have g1: "group ?r1 ''name'' = Some ''A''" "strip ''A'' = ''A''"
    "group ?r1 ''endianness'' = Some ''1''" "group ?r1 ''sign'' = Some ''-''"
    "group ?r1 ''is_multipexer'' = Some ''M''" "group ?r1 ''multiplexer_id'' = None"
    by code_simp+
  have a2: "parse_signal float_digits ?s ?l2 = Inr (final (parse_signal float_digits ?s ?l2))"
    by (rule not_isl_final) code_simp
  have b2: "re_search signal_pattern ?l2 = Some ?r2" by code_simp
  have g2: "group ?r2 ''name'' = Some ''B''" "strip ''B'' = ''B''"
    "group ?r2 ''endianness'' = Some ''0''" "group ?r2 ''sign'' = Some ''+''"
    "group ?r2 ''is_multipexer'' = None" "group ?r2 ''multiplexer_id'' = Some (CHR ''m'' # ''3'')"
    "py_int ''3'' = Some 3"
    by code_simp+
  from signal_field_decoding [OF a1 b1 md] g1
  have c1: "\<exists>m sg. map_of (messages (store (final (parse_signal float_digits ?s ?l1)) 0)) 1 = Some m
        \<and> map_of (signals m) ''A'' = Some sg
        \<and> little_endian sg \<and> signed sg \<and> is_multiplexer sg \<and> multiplexer_id sg = None"
    by auto
  from signal_field_decoding [OF a2 b2 md] g2
  have c2: "\<exists>m sg. map_of (messages (store (final (parse_signal float_digits ?s ?l2)) 0)) 1 = Some m
        \<and> map_of (signals m) ''B'' = Some sg
        \<and> \<not> little_endian sg \<and> \<not> signed sg \<and> \<not> is_multiplexer sg
        \<and> multiplexer_id sg = Some 3"
    by auto
  from md b1 c1 b2 c2 show ?thesis by blast
qed


theorem multiplexer_roles_witness:
  \<open>mode (final (parse_lines float_digits (init :: int parser) [''BU_: N'', ''BO_ 1 M: 8 N'']))
     = MESSAGE 0 1
   \<and> re_search signal_pattern ''SG_ S Mm1 : 0|8@1+ (1,0) [0|1] "" N'' = Some
        [(''receivers'', ''N''), (''unit'', []), (''max_value'', ''1''), (''min_value'', ''0''),
         (''offset'', ''0''), (''factor'', ''1''), (''sign'', ''+''), (''endianness'', ''1''),
         (''length'', ''8''), (''start_bit'', ''0''), (''multiplexer_id'', ''m1''),
         (''is_multipexer'', ''M''), (''name'', ''S'')]
   \<and> (\<exists>m sg. map_of (messages (store (final (parse_signal float_digits
          (final (parse_lines float_digits (init :: int parser) [''BU_: N'', ''BO_ 1 M: 8 N'']))
          ''SG_ S Mm1 : 0|8@1+ (1,0) [0|1] "" N'')) 0)) 1 = Some m
        \<and> map_of (signals m) ''S'' = Some sg
        \<and> is_multiplexer sg \<and> multiplexer_id sg \<noteq> None)
   \<and> re_search signal_pattern ''SG_ T : 0|8@1+ (1,0) [0|1] "" N'' = Some
        [(''receivers'', ''N''), (''unit'', []), (''max_value'', ''1''), (''min_value'', ''0''),
         (''offset'', ''0''), (''factor'', ''1''), (''sign'', ''+''), (''endianness'', ''1''),
         (''length'', ''8''), (''start_bit'', ''0''), (''name'', ''T'')]
   \<and> (\<exists>m sg. map_of (messages (store (final (parse_signal float_digits
          (final (parse_lines float_digits (init :: int parser) [''BU_: N'', ''BO_ 1 M: 8 N'']))
          ''SG_ T : 0|8@1+ (1,0) [0|1] "" N'')) 0)) 1 = Some m
        \<and> map_of (signals m) ''T'' = Some sg
        \<and> \<not> is_multiplexer sg \<and> multiplexer_id sg = None)\<close>
proof -
  let ?s = "final (parse_lines float_digits (init :: int parser) [''BU_: N'', ''BO_ 1 M: 8 N''])"
  let ?l1 = \<open>''SG_ S Mm1 : 0|8@1+ (1,0) [0|1] "" N''\<close>
  let ?r1 = "[(''receivers'', ''N''), (''unit'', []), (''max_value'', ''1''), (''min_value'', ''0''),
         (''offset'', ''0''), (''factor'', ''1''), (''sign'', ''+''), (''endianness'', ''1''),
         (''length'', ''8''), (''start_bit'', ''0''), (''multiplexer_id'', ''m1''),
         (''is_multipexer'', ''M''), (''name'', ''S'')]"
  let ?l2 = \<open>''SG_ T : 0|8@1+ (1,0) [0|1] "" N''\<close>
  let ?r2 = "[(''receivers'', ''N''), (''unit'', []), (''max_value'', ''1''), (''min_value'', ''0''),
         (''offset'', ''0''), (''factor'', ''1''), (''sign'', ''+''), (''endianness'', ''1''),
         (''length'', ''8''), (''start_bit'', ''0''), (''name'', ''T'')]"
  have md: "mode ?s = MESSAGE 0 1" by code_simp
  have a1: "parse_signal float_digits ?s ?l1 = Inr (final (parse_signal float_digits ?s ?l1))"
    by (rule not_isl_final) code_simp
  have b1: "re_search signal_pattern ?l1 = Some ?r1" by code_simp
  have g1: "group ?r1 ''name'' = Some ''S''" "strip ''S'' = ''S''"
    "group ?r1 ''is_multipexer'' \<noteq> None" "group ?r1 ''multiplexer_id'' \<noteq> None"
    by code_simp+
  have a2: "parse_signal float_digits ?s ?l2 = Inr (final (parse_signal float_digits ?s ?l2))"
    by (rule not_isl_final) code_simp
  have b2: "re_search signal_pattern ?l2 = Some ?r2" by code_simp
  have g2: "group ?r2 ''name'' = Some ''T''" "strip ''T'' = ''T''"
    "group ?r2 ''is_multipexer'' = None" "group ?r2 ''multiplexer_id'' = None"
    by code_simp+
  from multiplexer_roles [OF a1 b1 md] g1
  have c1: "\<exists>m sg. map_of (messages (store (final (parse_signal float_digits ?s ?l1)) 0)) 1 = Some m
        \<and> map_of (signals m) ''S'' = Some sg
        \<and> is_multiplexer sg \<and> multiplexer_id sg \<noteq> None"
    by auto
  from multiplexer_roles [OF a2 b2 md] g2
  have c2: "\<exists>m sg. map_of (messages (store (final (parse_signal float_digits ?s ?l2)) 0)) 1 = Some m
        \<and> map_of (signals m) ''T'' = Some sg
        \<and> \<not> is_multiplexer sg \<and> multiplexer_id sg = None"
    by auto
  from md b1 c1 b2 c2 show ?thesis by blast
qed

section \<open>Attribute definitions\<close>

lemma the_bus_set_bus [simp]: "the_bus (set_bus b s) = b"
  by (simp add: the_bus_def set_bus_def)

lemma attr_build_target:
  assumes "attr_build fl reg = Inr (Some ad)"
  shows "attr_obj_type ad = attr_target reg"
  using assms
  by (auto simp: attr_build_def split: option.splits if_splits)

lemma attr_build_type:
  assumes "attr_build fl reg = Inr (Some ad)"
  shows "group reg ''attr_type'' \<in> {Some ''FLOAT'', Some ''INT'', Some ''STRING'', Some ''ENUM''}"
  using assms
  by (auto simp: attr_build_def split: option.splits if_splits)

lemma attr_target_marker:
  assumes "group reg ''attr_type'' \<in> {Some ''FLOAT'', Some ''INT'', Some ''STRING'', Some ''ENUM''}"
    and "group reg ''attr_name'' \<noteq> Some ''BU_''" "group reg ''attr_name'' \<noteq> Some ''BO_''"
      "group reg ''attr_name'' \<noteq> Some ''SG_''"
    and "group reg ''attr_config'' \<noteq> Some ''BU_''" "group reg ''attr_config'' \<noteq> Some ''BO_''"
      "group reg ''attr_config'' \<noteq> Some ''SG_''"
  shows "attr_target reg = marker_target (group reg ''obj_type'')"
  using assms by (auto simp: attr_target_def groups_def marker_target_def)

lemma parse_attribute_definition_adds:
  assumes "parse_attribute_definition fl s line = Inr s'"
    and "re_search attribute_definition_pattern line = Some reg"
  shows "\<exists>ad. attr_build fl reg = Inr (Some ad)
      \<and> attribute_definitions (the_bus s') = attribute_definitions (the_bus s) @ [ad]"
  using assms
  by (auto simp: parse_attribute_definition_def add_attribute_definition_def
      split: sum.splits option.splits if_splits)

lemma cycle_time_match:
  \<open>re_search attribute_definition_pattern ''BA_DEF_ BO_ "GenMsgCycleTime" INT 0 65535;''
   = Some [(''attr_config'', ''0 65535''), (''attr_type'', ''INT''),
       (''attr_name'', ''GenMsgCycleTime''), (''obj_type'', ''BO_'')]\<close>
  by code_simp

lemma cycle_time_bounds:
  "re_search bounds_pattern ''0 65535'' = Some [(''max'', ''65535''), (''min'', ''0'')]"
  by code_simp

lemma cycle_time_build:
  assumes "fl ''0'' = Some lo" and "fl ''65535'' = Some hi"
  shows "attr_build fl [(''attr_config'', ''0 65535''), (''attr_type'', ''INT''),
       (''attr_name'', ''GenMsgCycleTime''), (''obj_type'', ''BO_'')]
     = Inr (Some (CANIntAttributeDefinition ''GenMsgCycleTime'' CANMessage lo hi))"
  using assms
  by (simp add: attr_build_def group_def attr_bounds_def cycle_time_bounds attr_target_def
      groups_def del: re_search.simps)

lemma cycle_time_line:
  assumes "\<not> force_parser s" and "fl ''0'' = Some lo" and "fl ''65535'' = Some hi"
    and "''GenMsgCycleTime'' \<notin> set (map attr_name (attribute_definitions (the_bus s)))"
  shows \<open>parse_line fl s ''BA_DEF_ BO_ "GenMsgCycleTime" INT 0 65535;''
     = Inr (set_bus ((the_bus s)\<lparr>attribute_definitions := attribute_definitions (the_bus s)
              @ [CANIntAttributeDefinition ''GenMsgCycleTime'' CANMessage lo hi]\<rparr>) s)\<close>
  using assms
  by (simp add: parse_line_def keyword_table_def parse_attribute_definition_def
      cycle_time_match cycle_time_build add_attribute_definition_def del: re_search.simps)


lemma attribute_definition_marker:
  assumes "re_search attribute_definition_pattern line = Some reg"
    and "parse_attribute_definition fl s line = Inr s'"
    and "group reg ''attr_name'' \<noteq> Some ''BU_''" "group reg ''attr_name'' \<noteq> Some ''BO_''"
      "group reg ''attr_name'' \<noteq> Some ''SG_''"
    and "group reg ''attr_config'' \<noteq> Some ''BU_''" "group reg ''attr_config'' \<noteq> Some ''BO_''"
      "group reg ''attr_config'' \<noteq> Some ''SG_''"
  shows "\<exists>ad. attribute_definitions (the_bus s') = attribute_definitions (the_bus s) @ [ad]
            \<and> attr_obj_type ad = marker_target (group reg ''obj_type'')"
proof -
  from parse_attribute_definition_adds [OF assms(2,1)]
  obtain ad where b: "attr_build fl reg = Inr (Some ad)"
    and a: "attribute_definitions (the_bus s') = attribute_definitions (the_bus s) @ [ad]"
    by blast
  have "attr_target reg = marker_target (group reg ''obj_type'')"
    by (rule attr_target_marker [OF attr_build_type [OF b] assms(3-8)])
  with attr_build_target [OF b] have "attr_obj_type ad = marker_target (group reg ''obj_type'')"
    by simp
  with a show ?thesis by (intro exI conjI)
qed

text \<open>
  C7, as amended. For an attribute definition record that is accepted (the pattern ends
  with a semicolon) and whose attribute name and trailing clause are not themselves one of
  the literals \<^verbatim>\<open>BU_\<close>, \<^verbatim>\<open>BO_\<close>, \<^verbatim>\<open>SG_\<close>, the definition added has the target kind the
  marker determines. In particular the record
  \<^verbatim>\<open>BA_DEF_ BO_ "GenMsgCycleTime" INT 0 65535;\<close> adds exactly one Int definition that
  targets Message, with the bounds \<^verbatim>\<open>float("0")\<close> and \<^verbatim>\<open>float("65535")\<close>.
\<close>

theorem attribute_definition_target:
  \<open>(re_search attribute_definition_pattern line = Some reg
      \<and> parse_attribute_definition fl s line = Inr s'
      \<and> group reg ''attr_name'' \<noteq> Some ''BU_'' \<and> group reg ''attr_name'' \<noteq> Some ''BO_''
      \<and> group reg ''attr_name'' \<noteq> Some ''SG_''
      \<and> group reg ''attr_config'' \<noteq> Some ''BU_'' \<and> group reg ''attr_config'' \<noteq> Some ''BO_''
      \<and> group reg ''attr_config'' \<noteq> Some ''SG_''
     \<longrightarrow> (\<exists>ad. attribute_definitions (the_bus s') = attribute_definitions (the_bus s) @ [ad]
            \<and> attr_obj_type ad = marker_target (group reg ''obj_type'')))
   \<and> (\<not> force_parser s \<and> fl ''0'' = Some lo \<and> fl ''65535'' = Some hi
      \<and> ''GenMsgCycleTime'' \<notin> set (map attr_name (attribute_definitions (the_bus s)))
     \<longrightarrow> parse_line fl s ''BA_DEF_ BO_ "GenMsgCycleTime" INT 0 65535;''
         = Inr (set_bus ((the_bus s)\<lparr>attribute_definitions := attribute_definitions (the_bus s)
              @ [CANIntAttributeDefinition ''GenMsgCycleTime'' CANMessage lo hi]\<rparr>) s))\<close>
  apply (rule conjI)
   apply (rule impI)
   apply (elim conjE)
   apply (erule (7) attribute_definition_marker)
  apply (rule impI)
  apply (elim conjE)
  apply (erule (3) cycle_time_line)
  done

theorem attribute_definition_no_semicolon_counterexample:
  \<open>returned (parse_file float_digits (init :: int parser)
      [''BA_DEF_ BO_ "GenMsgCycleTime" INT 0 65535'']) = Inl MalformedRecord\<close>
  by code_simp

text \<open>
  The target is computed by \<^verbatim>\<open>'BU_' in reg.groups()\<close> over all four groups, so an
  attribute named \<^verbatim>\<open>BU_\<close> makes a Signal definition a Node definition.
\<close>

lemma attribute_name_as_marker:
  \<open>returned (parse_file float_digits (init :: int parser) [''BA_DEF_ SG_ "BU_" STRING ;''])
   = Inr (new_bus\<lparr>attribute_definitions := [CANStringAttributeDefinition ''BU_'' CANNode]\<rparr>)\<close>
  by code_simp

theorem attribute_definition_target_witness:
  \<open>re_search attribute_definition_pattern ''BA_DEF_ SG_ "Unit" STRING ;''
     = Some [(''attr_type'', ''STRING''), (''attr_name'', ''Unit''), (''obj_type'', ''SG_'')]
   \<and> (\<exists>ad. attribute_definitions (the_bus (final (parse_attribute_definition float_digits
          (init :: int parser) ''BA_DEF_ SG_ "Unit" STRING ;'')))
        = attribute_definitions (the_bus (init :: int parser)) @ [ad]
        \<and> attr_obj_type ad = CANSignal)
   \<and> \<not> force_parser (init :: int parser)
   \<and> float_digits ''0'' = Some 0 \<and> float_digits ''65535'' = Some 65535
   \<and> ''GenMsgCycleTime'' \<notin> set (map attr_name (attribute_definitions (the_bus (init :: int parser))))
   \<and> parse_line float_digits (init :: int parser) ''BA_DEF_ BO_ "GenMsgCycleTime" INT 0 65535;''
       = Inr (set_bus ((the_bus init)\<lparr>attribute_definitions := attribute_definitions (the_bus init)
              @ [CANIntAttributeDefinition ''GenMsgCycleTime'' CANMessage 0 65535]\<rparr>) init)\<close>
proof -
  let ?l = \<open>''BA_DEF_ SG_ "Unit" STRING ;''\<close>
  let ?r = "[(''attr_type'', ''STRING''), (''attr_name'', ''Unit''), (''obj_type'', ''SG_'')]"
  let ?s = "init :: int parser"
  have a: "re_search attribute_definition_pattern ?l = Some ?r" by code_simp
  have b: "parse_attribute_definition float_digits ?s ?l
             = Inr (final (parse_attribute_definition float_digits ?s ?l))"
    by (rule not_isl_final) code_simp
  have g: "group ?r ''attr_name'' \<noteq> Some ''BU_''" "group ?r ''attr_name'' \<noteq> Some ''BO_''"
    "group ?r ''attr_name'' \<noteq> Some ''SG_''" "group ?r ''attr_config'' \<noteq> Some ''BU_''"
    "group ?r ''attr_config'' \<noteq> Some ''BO_''" "group ?r ''attr_config'' \<noteq> Some ''SG_''"
    "marker_target (group ?r ''obj_type'') = CANSignal"
    by code_simp+
  have c: "\<not> force_parser ?s" by (simp add: init_def)
  have d: "float_digits ''0'' = Some 0" "float_digits ''65535'' = Some 65535" by code_simp+
  have e: "''GenMsgCycleTime'' \<notin> set (map attr_name (attribute_definitions (the_bus ?s)))"
    by (simp add: init_def the_bus_def new_bus_def)
  note t = attribute_definition_target [of ?l ?r float_digits ?s
      "final (parse_attribute_definition float_digits ?s ?l)" 0 65535]
  have 1: "\<exists>ad. attribute_definitions (the_bus (final
          (parse_attribute_definition float_digits ?s ?l)))
        = attribute_definitions (the_bus ?s) @ [ad] \<and> attr_obj_type ad = CANSignal"
    using t [THEN conjunct1, THEN mp, OF conjI [OF a conjI [OF b conjI [OF g(1) conjI [OF g(2)
      conjI [OF g(3) conjI [OF g(4) conjI [OF g(5) g(6)]]]]]]]]
    unfolding g(7) .
  have 2: \<open>parse_line float_digits ?s ''BA_DEF_ BO_ "GenMsgCycleTime" INT 0 65535;''
       = Inr (set_bus ((the_bus ?s)\<lparr>attribute_definitions := attribute_definitions (the_bus ?s)
              @ [CANIntAttributeDefinition ''GenMsgCycleTime'' CANMessage 0 65535]\<rparr>) ?s)\<close>
    by (rule t [THEN conjunct2, THEN mp, OF conjI [OF c conjI [OF d(1) conjI [OF d(2) e]]]])
  show ?thesis
    by (intro conjI a 1 c d e 2)
qed

section \<open>The continuation of a description\<close>

lemma lastn_terminator: "(lastn 2 s = terminator) = (\<exists>pre. s = pre @ terminator)"
proof
  assume "lastn 2 s = terminator"
  then have "s = take (length s - 2) s @ terminator"
    unfolding lastn_def by (metis append_take_drop_id)
  then show "\<exists>pre. s = pre @ terminator" ..
next
  assume "\<exists>pre. s = pre @ terminator"
  then show "lastn 2 s = terminator"
    by (auto simp: lastn_def terminator_def)
qed

text \<open>
  C8, as amended. While the continuation handler is active, a line ends the continuation
  exactly when, stripped of the whitespace around it, it ends with the pair \<^verbatim>\<open>";\<close>: the
  description is then assigned and the mode is \<^verbatim>\<open>NORMAL\<close> again. Any other line, also one
  that holds the pair somewhere before its end, is appended to the text as it is and the
  continuation goes on.
\<close>

theorem continuation_step:
  assumes "force_parser s" and "mode s = MULTILINE_DESCRIPTION item text"
  shows "parse_line fl s line =
     (if \<exists>pre. strip line = pre @ terminator
      then Inr (s\<lparr>store := set_description item (text @ replace terminator [] line) (store s),
                  force_parser := False, mode := NORMAL\<rparr>)
      else Inr (s\<lparr>mode := MULTILINE_DESCRIPTION item (text @ line)\<rparr>))"
  using assms
  by (simp add: parse_line_def parse_multiline_description_def lastn_terminator)


theorem continuation_inner_counterexample:
  \<open>force_parser (final (parse_lines float_digits (init :: int parser)
       [''CM_ "first part'', ''mid"; dle'']))
   \<and> mode (final (parse_lines float_digits (init :: int parser)
       [''CM_ "first part'', ''mid"; dle'']))
     = MULTILINE_DESCRIPTION (BusRef 0) (''first part'' @ [CHR 0x0A] @ ''mid"; dle'')
   \<and> description (the_bus (final (parse_lines float_digits (init :: int parser)
       [''CM_ "first part'', ''mid"; dle'']))) = None\<close>
  by code_simp

theorem continuation_step_witness:
  \<open>force_parser (final (parse_lines float_digits (init :: int parser) [''CM_ "first part'']))
   \<and> mode (final (parse_lines float_digits (init :: int parser) [''CM_ "first part'']))
       = MULTILINE_DESCRIPTION (BusRef 0) (''first part'' @ [CHR 0x0A])
   \<and> \<not> (\<exists>pre. strip ''mid"; dle'' = pre @ terminator)
   \<and> parse_line float_digits
         (final (parse_lines float_digits (init :: int parser) [''CM_ "first part'']))
         ''mid"; dle''
       = Inr ((final (parse_lines float_digits (init :: int parser) [''CM_ "first part'']))
           \<lparr>mode := MULTILINE_DESCRIPTION (BusRef 0) ((''first part'' @ [CHR 0x0A]) @ ''mid"; dle'')\<rparr>)
   \<and> (\<exists>pre. strip ''the end";'' = pre @ terminator)
   \<and> parse_line float_digits
         (final (parse_lines float_digits (init :: int parser) [''CM_ "first part'']))
         ''the end";''
       = Inr ((final (parse_lines float_digits (init :: int parser) [''CM_ "first part'']))
           \<lparr>store := set_description (BusRef 0)
              ((''first part'' @ [CHR 0x0A]) @ replace terminator [] ''the end";'')
              (store (final (parse_lines float_digits (init :: int parser) [''CM_ "first part'']))),
            force_parser := False, mode := NORMAL\<rparr>)\<close>
proof -
  let ?s = \<open>final (parse_lines float_digits (init :: int parser) [''CM_ "first part''])\<close>
  have a: "force_parser ?s" by code_simp
  have b: "mode ?s = MULTILINE_DESCRIPTION (BusRef 0) (''first part'' @ [CHR 0x0A])"
    by code_simp
  have c: \<open>\<not> (\<exists>pre. strip ''mid"; dle'' = pre @ terminator)\<close>
    unfolding lastn_terminator [symmetric] by code_simp
  have d: \<open>\<exists>pre. strip ''the end";'' = pre @ terminator\<close>
    unfolding lastn_terminator [symmetric] by code_simp
  have 1: \<open>parse_line float_digits ?s ''mid"; dle''
       = Inr (?s\<lparr>mode := MULTILINE_DESCRIPTION (BusRef 0) ((''first part'' @ [CHR 0x0A]) @ ''mid"; dle'')\<rparr>)\<close>
    using continuation_step [OF a b, of float_digits \<open>''mid"; dle''\<close>] c by (simp only: if_False)
  have 2: \<open>parse_line float_digits ?s ''the end";''
       = Inr (?s\<lparr>store := set_description (BusRef 0)
              ((''first part'' @ [CHR 0x0A]) @ replace terminator [] ''the end";'') (store ?s),
            force_parser := False, mode := NORMAL\<rparr>)\<close>
    using continuation_step [OF a b, of float_digits \<open>''the end";''\<close>] d by (simp only: if_True)
  show ?thesis
    by (intro conjI a b c 1 d 2)
qed

text \<open>
  The text of a description that spans several lines of a file: the lines reach the
  handler stripped, and they are appended with nothing between them.
\<close>

lemma last_dropWhile: "dropWhile P xs \<noteq> [] \<Longrightarrow> last (dropWhile P xs) = last xs"
  by (induction xs) (auto split: if_splits)

lemma strip_idem: "strip (strip s) = strip s"
proof -
  define u where "u = dropWhile isspace s"
  define w where "w = dropWhile isspace (rev u)"
  have s: "strip s = rev w"
    by (simp add: strip_def u_def w_def)
  have "dropWhile isspace (rev w) = rev w"
  proof (cases "w = []")
    case True
    then show ?thesis by simp
  next
    case False
    then have "last w = last (rev u)"
      unfolding w_def by (rule last_dropWhile)
    moreover from False have "u \<noteq> []"
      by (auto simp: w_def)
    ultimately have "last w = hd u"
      by (simp add: last_rev)
    moreover from \<open>u \<noteq> []\<close> have "\<not> isspace (hd u)"
      unfolding u_def by (rule hd_dropWhile)
    ultimately show ?thesis
      using False by (simp add: dropWhile_eq_self_iff hd_rev)
  qed
  then have "strip (rev w) = rev (dropWhile isspace w)"
    by (simp add: strip_def)
  also have "dropWhile isspace w = w"
    by (simp add: w_def)
  finally show ?thesis
    by (simp add: s)
qed

lemma continuation_lines:
  assumes "force_parser s" and "mode s = MULTILINE_DESCRIPTION item text"
    and "list_all (\<lambda>l. lastn 2 (strip l) \<noteq> terminator) ls"
  shows "parse_lines fl s ls
     = Inr (s\<lparr>mode := MULTILINE_DESCRIPTION item (text @ concat (map strip ls))\<rparr>)"
  using assms
proof (induction ls arbitrary: s "text")
  case Nil
  then show ?case by simp
next
  case (Cons l ls)
  let ?s = "s\<lparr>mode := MULTILINE_DESCRIPTION item (text @ strip l)\<rparr>"
  from Cons.prems have "parse_line fl s (strip l) = Inr ?s"
    by (simp add: parse_line_def parse_multiline_description_def strip_idem)
  moreover have "parse_lines fl ?s ls
     = Inr (?s\<lparr>mode := MULTILINE_DESCRIPTION item ((text @ strip l) @ concat (map strip ls))\<rparr>)"
    using Cons.prems by (intro Cons.IH) simp_all
  ultimately show ?case by simp
qed

lemma continuation_text:
  assumes "force_parser s" and "mode s = MULTILINE_DESCRIPTION item text"
    and "list_all (\<lambda>l. lastn 2 (strip l) \<noteq> terminator) ls"
    and "lastn 2 (strip l) = terminator"
  shows "parse_lines fl s (ls @ [l])
     = Inr (s\<lparr>store := set_description item
                (text @ concat (map strip ls) @ replace terminator [] (strip l)) (store s),
              force_parser := False, mode := NORMAL\<rparr>)"
proof -
  have app: "parse_lines fl s (xs @ ys)
      = (case parse_lines fl s xs of Inl e \<Rightarrow> Inl e | Inr s' \<Rightarrow> parse_lines fl s' ys)"
    for xs ys and s :: "'a parser"
    by (induction xs arbitrary: s) (auto split: sum.splits)
  show ?thesis
    using assms
    by (simp add: app continuation_lines parse_line_def parse_multiline_description_def
        strip_idem)
qed

text \<open>
  C2. A description over three lines of a file: the text assigned is the first part and a
  newline, then the second and the third line with no newline between them. The line
  \<^verbatim>\<open>value + '\n'\<close> of \<^verbatim>\<open>_parse_description\<close> keeps the line break of the opening line;
  \<^verbatim>\<open>_parse_multiline_description\<close> appends the stripped line alone.
\<close>

theorem description_newlines_lost:
  \<open>returned (parse_file float_digits (init :: int parser)
      [''CM_ "first line'' @ [CHR 0x0A], ''second'' @ [CHR 0x0A], ''third";'' @ [CHR 0x0A]])
   = Inr (new_bus\<lparr>description := Some (''first line'' @ [CHR 0x0A] @ ''secondthird'')\<rparr>)\<close>
  by code_simp

section \<open>Two invocations on one parser\<close>

text \<open>
  C10. \<^verbatim>\<open>parse_file\<close> replaces the bus and leaves \<^verbatim>\<open>_mode\<close> and \<^verbatim>\<open>_force_parser\<close> as
  the invocation before left them. A file with a Signal record and no Message record is
  rejected by a new parser; on a parser that has parsed a file ending in a message block
  the same file is accepted, and its signal goes into the message of the bus returned
  earlier (at address 1), with a receiver of the new bus (at address 2).
\<close>

theorem parser_state_reused:
  \<open>returned (parse_file float_digits (init :: int parser)
      [''BU_: N'', ''SG_ S : 0|8@1+ (1,0) [0|1] "" N'']) = Inl ContextError
   \<and> returned (parse_file float_digits
        (final (parse_file float_digits (init :: int parser) [''BU_: N'', ''BO_ 1 M: 8 N'']))
        [''BU_: N'', ''SG_ S : 0|8@1+ (1,0) [0|1] "" N''])
     = Inr (new_bus\<lparr>nodes := [(''N'', new_node ''N'')]\<rparr>)
   \<and> get_signal 1 ''S'' (store (final (parse_file float_digits
        (final (parse_file float_digits (init :: int parser) [''BU_: N'', ''BO_ 1 M: 8 N'']))
        [''BU_: N'', ''SG_ S : 0|8@1+ (1,0) [0|1] "" N''])) 1)
     = Inr \<lparr>sig_name = ''S'', start_bit = 0, sig_length = 8, little_endian = True,
        signed = False, factor = 1, offset = 0, value_min = 0,
        value_max = 1, sig_unit = [], is_multiplexer = False,
        multiplexer_id = None, receivers = [(2, ''N'')],
        sig_description = None\<rparr>\<close>
  by code_simp

end
